theory Spec2Isabelle
  imports Complex_Main "HOL-Library.List_Lexorder" "HOL-Library.Char_ord"
begin

section \<open>Duration estimator (src/lib/nlp/duration-estimator.ts)\<close>

text \<open>
  JavaScript strings are modelled as \<^typ>\<open>string\<close>; the model covers ASCII text.
  JavaScript numbers are modelled exactly: whole minutes as \<^typ>\<open>int\<close>, multipliers
  as \<^typ>\<open>rat\<close>.
\<close>

subsection \<open>String primitives\<close>

definition toLowerCase_char :: "char \<Rightarrow> char" where
  "toLowerCase_char c =
     (let n = (of_char c :: nat) in if 65 \<le> n \<and> n \<le> 90 then char_of (n + 32) else c)"

definition toLowerCase :: "string \<Rightarrow> string" where
  "toLowerCase s = map toLowerCase_char s"

text \<open>The regular-expression classes \<open>\s\<close> and \<open>\d\<close> on ASCII.\<close>

definition is_space :: "char \<Rightarrow> bool" where
  "is_space c = (let n = (of_char c :: nat) in (9 \<le> n \<and> n \<le> 13) \<or> n = 32)"

definition is_digit :: "char \<Rightarrow> bool" where
  "is_digit c = (let n = (of_char c :: nat) in 48 \<le> n \<and> n \<le> 57)"

text \<open>
  \<open>text.split(/\s+/)\<close>: the pieces between maximal runs of white space. A leading or
  trailing run yields an empty first or last piece, and the empty string yields one
  empty piece. \<open>cur\<close> is the piece being read (reversed), \<open>in_sep\<close> says that the
  previous character was white space.
\<close>

fun split_ws_from :: "string \<Rightarrow> bool \<Rightarrow> string \<Rightarrow> string list" where
  "split_ws_from cur in_sep [] = [rev cur]"
| "split_ws_from cur in_sep (c # cs) =
     (if is_space c
      then (if in_sep then split_ws_from [] True cs
            else rev cur # split_ws_from [] True cs)
      else split_ws_from (c # cur) False cs)"

definition split_ws :: "string \<Rightarrow> string list" where
  "split_ws s = split_ws_from [] False s"

fun startsWith :: "string \<Rightarrow> string \<Rightarrow> bool" where
  "startsWith s [] = True"
| "startsWith [] (k # ks) = False"
| "startsWith (c # cs) (k # ks) = (c = k \<and> startsWith cs ks)"

text \<open>\<open>s.includes(k)\<close>: \<open>k\<close> occurs in \<open>s\<close> as a contiguous substring.\<close>

fun includes_str :: "string \<Rightarrow> string \<Rightarrow> bool" where
  "includes_str [] k = (k = [])"
| "includes_str (c # cs) k = (startsWith (c # cs) k \<or> includes_str cs k)"

subsection \<open>Pattern tables\<close>

record TaskPattern =
  keywords_of :: "string list"
  baseMinutes :: int
  multipliers :: "(string \<times> rat) list"

definition patterns :: "TaskPattern list" where
  "patterns =
   [\<lparr>keywords_of = [''meeting'', ''call'', ''standup'', ''sync'', ''check-in'', ''discussion''],
      baseMinutes = 30,
      multipliers = [(''quick'', 1/2), (''brief'', 1/2), (''short'', 1/2), (''long'', 2),
                     (''extended'', 5/2), (''all-day'', 8), (''team'', 3/2), (''client'', 3/2)]\<rparr>,
    \<lparr>keywords_of = [''code'', ''develop'', ''implement'', ''build'', ''create'', ''program'',
                  ''debug'', ''fix''],
      baseMinutes = 120,
      multipliers = [(''simple'', 1/2), (''basic'', 1/2), (''quick'', 1/2), (''complex'', 2),
                     (''advanced'', 5/2), (''refactor'', 3/2), (''prototype'', 4/5),
                     (''production'', 2)]\<rparr>,
    \<lparr>keywords_of = [''research'', ''analyze'', ''investigate'', ''study'', ''explore'', ''learn''],
      baseMinutes = 90,
      multipliers = [(''quick'', 1/2), (''deep'', 2), (''thorough'', 2), (''comprehensive'', 3),
                     (''preliminary'', 7/10)]\<rparr>,
    \<lparr>keywords_of = [''document'', ''write'', ''documentation'', ''readme'', ''manual'', ''guide''],
      baseMinutes = 60,
      multipliers = [(''quick'', 1/2), (''brief'', 1/2), (''detailed'', 2),
                     (''comprehensive'', 3), (''technical'', 3/2)]\<rparr>,
    \<lparr>keywords_of = [''design'', ''mockup'', ''wireframe'', ''prototype'', ''ui'', ''ux''],
      baseMinutes = 90,
      multipliers = [(''simple'', 7/10), (''complex'', 2), (''detailed'', 3/2),
                     (''high-fidelity'', 2), (''low-fidelity'', 4/5)]\<rparr>,
    \<lparr>keywords_of = [''test'', ''testing'', ''qa'', ''review'', ''validate''],
      baseMinutes = 45,
      multipliers = [(''quick'', 1/2), (''thorough'', 2), (''comprehensive'', 5/2),
                     (''unit'', 4/5), (''integration'', 3/2), (''e2e'', 2)]\<rparr>,
    \<lparr>keywords_of = [''email'', ''admin'', ''administrative'', ''paperwork'', ''form'',
                  ''application''],
      baseMinutes = 20,
      multipliers = [(''quick'', 1/2), (''detailed'', 3/2), (''complex'', 2)]\<rparr>,
    \<lparr>keywords_of = [''presentation'', ''present'', ''demo'', ''showcase'', ''pitch''],
      baseMinutes = 45,
      multipliers = [(''prepare'', 3), (''create'', 4), (''deliver'', 1), (''practice'', 3/2)]\<rparr>]"

definition commonMultipliers :: "(string \<times> rat) list" where
  "commonMultipliers =
   [(''small'', 1/2), (''large'', 2), (''huge'', 3), (''tiny'', 3/10), (''massive'', 4),
    (''urgent'', 4/5), (''asap'', 4/5), (''rush'', 7/10),
    (''simple'', 3/5), (''easy'', 1/2), (''hard'', 2), (''difficult'', 5/2),
    (''challenging'', 2),
    (''hour'', 1), (''hours'', 2), (''day'', 8), (''days'', 16), (''week'', 40),
    (''month'', 160)]"

definition technicalTerms :: "string list" where
  "technicalTerms =
   [''api'', ''database'', ''server'', ''deploy'', ''infrastructure'',
    ''architecture'', ''framework'', ''integration'', ''migration'',
    ''optimization'', ''performance'', ''security'', ''scalability'']"

subsection \<open>The estimator\<close>

text \<open>\<open>calculateMatchScore\<close>: the fraction of keywords that contain, or are contained
  in, some word of the text.\<close>

definition calculateMatchScore :: "string list \<Rightarrow> string list \<Rightarrow> rat" where
  "calculateMatchScore words kws =
     of_nat (length (filter (\<lambda>keyword.
        list_ex (\<lambda>word. includes_str word keyword \<or> includes_str keyword word) words) kws))
     / of_nat (length kws)"

text \<open>The loop that keeps the first pattern of strictly highest score; the state is
  \<open>(bestMatch, matchScore)\<close>.\<close>

fun bestMatch_loop ::
  "string list \<Rightarrow> TaskPattern list \<Rightarrow> TaskPattern option \<times> rat \<Rightarrow> TaskPattern option \<times> rat"
where
  "bestMatch_loop words [] st = st"
| "bestMatch_loop words (p # ps) (best, matchScore) =
     (let score = calculateMatchScore words (keywords_of p)
      in if score > matchScore then bestMatch_loop words ps (Some p, score)
         else bestMatch_loop words ps (best, matchScore))"

text \<open>Multiplying \<open>totalMultiplier\<close> by every table entry whose keyword occurs in the text.\<close>

fun applyMultipliers :: "string \<Rightarrow> (string \<times> rat) list \<Rightarrow> rat \<Rightarrow> rat" where
  "applyMultipliers text [] totalMultiplier = totalMultiplier"
| "applyMultipliers text ((keyword, multiplier) # rest) totalMultiplier =
     (if includes_str text keyword then applyMultipliers text rest (totalMultiplier * multiplier)
      else applyMultipliers text rest totalMultiplier)"

text \<open>
  A match of \<open>/(\d+)\s*(u1|u2)s?/i\<close> anchored at the head of \<open>s\<close>, returning the
  digits of group 1. The greedy \<open>\d+\<close> takes the whole run of digits: giving one back
  leaves a digit where white space or the unit must start, so backtracking finds nothing
  more.
\<close>

definition match_here :: "string list \<Rightarrow> string \<Rightarrow> string option" where
  "match_here units s =
     (let ds = takeWhile is_digit s;
          rest = toLowerCase (dropWhile is_space (dropWhile is_digit s))
      in if ds \<noteq> [] \<and> list_ex (startsWith rest) units then Some ds else None)"

text \<open>\<open>text.match(pattern)\<close>: the leftmost match.\<close>

fun regex_match :: "string list \<Rightarrow> string \<Rightarrow> string option" where
  "regex_match units [] = None"
| "regex_match units (c # cs) =
     (case match_here units (c # cs) of
        Some ds \<Rightarrow> Some ds
      | None \<Rightarrow> regex_match units cs)"

text \<open>\<open>parseInt\<close> on a run of decimal digits.\<close>

definition parseInt :: "string \<Rightarrow> int" where
  "parseInt ds = foldl (\<lambda>n c. 10 * n + (int (of_char c) - 48)) 0 ds"

definition timePatterns :: "(string list \<times> int) list" where
  "timePatterns =
     [([''minute'', ''min''], 1),
      ([''hour'', ''hr''], 60),
      ([''day''], 480),
      ([''week''], 2400)]"

fun extractTimeIndicators_loop :: "(string list \<times> int) list \<Rightarrow> string \<Rightarrow> int option" where
  "extractTimeIndicators_loop [] text = None"
| "extractTimeIndicators_loop ((units, multiplier) # rest) text =
     (case regex_match units text of
        Some ds \<Rightarrow> Some (parseInt ds * multiplier)
      | None \<Rightarrow> extractTimeIndicators_loop rest text)"

definition extractTimeIndicators :: "string \<Rightarrow> int option" where
  "extractTimeIndicators text = extractTimeIndicators_loop timePatterns text"

definition calculateComplexityMultiplier :: "string \<Rightarrow> nat \<Rightarrow> rat" where
  "calculateComplexityMultiplier text wordCount =
     (let m0 = (1::rat);
          m1 = (if wordCount > 20 then m0 * (13/10) else m0);
          m2 = (if wordCount > 50 then m1 * (3/2) else m1);
          technicalMatches = filter (\<lambda>term. includes_str text term) technicalTerms;
          m3 = (if length technicalMatches > 0
                then m2 * (1 + of_nat (length technicalMatches) * (1/5)) else m2);
          m4 = (if includes_str text ''step'' \<or> includes_str text ''phase'' \<or> includes_str text ''stage''
                then m3 * (7/5) else m3);
          m5 = (if includes_str text ''team'' \<or> includes_str text ''collaborate''
                   \<or> includes_str text ''coordinate''
                then m4 * (13/10) else m4)
      in m5)"

text \<open>\<open>Math.round\<close>: the nearest integer, a tie going up.\<close>

definition Math_round :: "rat \<Rightarrow> int" where
  "Math_round x = \<lfloor>x + 1/2\<rfloor>"

text \<open>
  \<open>estimateDuration(title, description?)\<close>. An absent or empty description contributes
  the empty string. A time indicator is returned as it is when it is truthy, that is
  when it is present and not zero.
\<close>

definition estimate_text :: "string \<Rightarrow> string option \<Rightarrow> string" where
  "estimate_text title description =
     toLowerCase (title @ '' '' @ (case description of None \<Rightarrow> [] | Some d \<Rightarrow> d))"

definition estimateDuration :: "string \<Rightarrow> string option \<Rightarrow> int" where
  "estimateDuration title description =
     (let text = estimate_text title description;
          words = split_ws text;
          bestMatch = fst (bestMatch_loop words patterns (None, 0));
          baseEstimate = (case bestMatch of Some p \<Rightarrow> baseMinutes p | None \<Rightarrow> 60);
          t0 = (1::rat);
          t1 = (case bestMatch of Some p \<Rightarrow> applyMultipliers text (multipliers p) t0
                | None \<Rightarrow> t0);
          t2 = applyMultipliers text commonMultipliers t1;
          timeMatch = extractTimeIndicators text
      in case timeMatch of
           Some t \<Rightarrow>
             (if t \<noteq> 0 then t
              else max 5 (min 480 (Math_round (of_int baseEstimate
                     * (t2 * calculateComplexityMultiplier text (length words))))))
         | None \<Rightarrow>
             max 5 (min 480 (Math_round (of_int baseEstimate
                     * (t2 * calculateComplexityMultiplier text (length words))))))"


section \<open>Dates\<close>

text \<open>
  A \<open>Date\<close> is its time value: milliseconds since the epoch, an \<^typ>\<open>int\<close>. The
  calendar functions are read in UTC, the single time zone the engines work in. The
  functions of the date-fns library are modelled from their documentation.
\<close>

definition msPerDay :: int where "msPerDay = 86400000"

definition getDay :: "int \<Rightarrow> int" where
  \<comment> \<open>0 = Sunday; the epoch was a Thursday\<close>
  "getDay d = (d div msPerDay + 4) mod 7"

definition getHours :: "int \<Rightarrow> int" where
  "getHours d = (d mod msPerDay) div 3600000"

definition getMinutes :: "int \<Rightarrow> int" where
  "getMinutes d = (d mod 3600000) div 60000"

definition addDays :: "int \<Rightarrow> int \<Rightarrow> int" where
  "addDays d n = d + n * msPerDay"

definition addMinutes :: "int \<Rightarrow> int \<Rightarrow> int" where
  "addMinutes d n = d + n * 60000"

definition isBefore :: "int \<Rightarrow> int \<Rightarrow> bool" where
  "isBefore a b = (a < b)"

definition isAfter :: "int \<Rightarrow> int \<Rightarrow> bool" where
  "isAfter a b = (a > b)"

definition isEqual :: "int \<Rightarrow> int \<Rightarrow> bool" where
  "isEqual a b = (a = b)"

text \<open>
  \<open>isWithinInterval(d, {start: s, end: e})\<close>, both ends inclusive. The library
  rejects or reorders an interval that ends before it starts, depending on its version;
  the model is meant for \<open>s \<le> e\<close>.
\<close>

definition isWithinInterval :: "int \<Rightarrow> int \<Rightarrow> int \<Rightarrow> bool" where
  "isWithinInterval d s e = (s \<le> d \<and> d \<le> e)"

section \<open>Availability engine and meeting suggester (AvailabilityCalculator)\<close>

record TimeSlot =
  slot_start :: int
  slot_end :: int

text \<open>A time of day \<open>"HH:mm"\<close>, as the numbers that \<open>split(':').map(Number)\<close> reads.\<close>

record TimeOfDay =
  hours :: int
  minutes :: int

record WorkingHours =
  wh_start :: TimeOfDay
  wh_end :: TimeOfDay
  days :: "int list"

record AvailabilityOptions =
  opt_workingHours :: "WorkingHours option"
  bufferMinutes :: "int option"
  minMeetingDuration :: "int option"
  maxMeetingDuration :: "int option"

record UserAvailability =
  userId :: string
  user_name :: string
  email :: string
  busySlots :: "TimeSlot list"
  workingHours :: WorkingHours

text \<open>
  A JavaScript number that may be \<open>NaN\<close>: \<open>None\<close> is \<open>NaN\<close>, which only the division
  \<open>0 / 0\<close> of an empty user list produces here.
\<close>

record MeetingSuggestion =
  sug_start :: int
  sug_end :: int
  duration :: int
  availableParticipants :: "string list"
  confidence :: "rat option"
  score :: "rat option"

definition defaultWorkingHours :: WorkingHours where
  "defaultWorkingHours =
     \<lparr>wh_start = \<lparr>hours = 9, minutes = 0\<rparr>, wh_end = \<lparr>hours = 17, minutes = 0\<rparr>,
      days = [1, 2, 3, 4, 5]\<rparr>"

definition defaultOptions :: AvailabilityOptions where
  "defaultOptions =
     \<lparr>opt_workingHours = None, bufferMinutes = Some 15,
      minMeetingDuration = Some 30, maxMeetingDuration = Some 120\<rparr>"

text \<open>\<open>{ ...a, ...b }\<close> on one optional field: the field of \<open>b\<close> when it is set.\<close>

definition spread :: "'a option \<Rightarrow> 'a option \<Rightarrow> 'a option" where
  "spread a b = (case b of Some v \<Rightarrow> Some v | None \<Rightarrow> a)"

definition mergeOptions :: "AvailabilityOptions \<Rightarrow> AvailabilityOptions \<Rightarrow> AvailabilityOptions" where
  "mergeOptions d opts =
     \<lparr>opt_workingHours = spread (opt_workingHours d) (opt_workingHours opts),
      bufferMinutes = spread (bufferMinutes d) (bufferMinutes opts),
      minMeetingDuration = spread (minMeetingDuration d) (minMeetingDuration opts),
      maxMeetingDuration = spread (maxMeetingDuration d) (maxMeetingDuration opts)\<rparr>"

definition parseTimeOnDate :: "TimeOfDay \<Rightarrow> int \<Rightarrow> int" where
  \<comment> \<open>\<open>setHours(hours, minutes, 0, 0)\<close> on a copy of the date\<close>
  "parseTimeOnDate t d = (d div msPerDay) * msPerDay + hours t * 3600000 + minutes t * 60000"

text \<open>The loop over consecutive pairs of the sorted busy slots.\<close>

fun gapsBetween :: "TimeSlot list \<Rightarrow> int \<Rightarrow> TimeSlot list" where
  "gapsBetween (cur # nxt # rest) buf =
     (let freeStart = addMinutes (slot_end cur) buf;
          freeEnd = addMinutes (slot_start nxt) (- buf)
      in (if isBefore freeStart freeEnd
          then [\<lparr>slot_start = freeStart, slot_end = freeEnd\<rparr>] else [])
         @ gapsBetween (nxt # rest) buf)"
| "gapsBetween [cur] buf = []"
| "gapsBetween [] buf = []"

definition sortedBusy_of :: "TimeSlot list \<Rightarrow> int \<Rightarrow> int \<Rightarrow> TimeSlot list" where
  "sortedBusy_of busy dayStart dayEnd =
     sort_key slot_start
       (filter (\<lambda>slot. isWithinInterval (slot_start slot) dayStart dayEnd
                     \<or> isWithinInterval (slot_end slot) dayStart dayEnd) busy)"

definition findFreeSlotsInDay :: "TimeSlot list \<Rightarrow> int \<Rightarrow> int \<Rightarrow> int \<Rightarrow> TimeSlot list" where
  "findFreeSlotsInDay busy dayStart dayEnd buf =
     (let sortedBusy = sortedBusy_of busy dayStart dayEnd
      in case sortedBusy of
           [] \<Rightarrow> [\<lparr>slot_start = dayStart, slot_end = dayEnd\<rparr>]
         | firstBusy # _ \<Rightarrow>
             (if isBefore dayStart (slot_start firstBusy)
              then (let freeEnd = addMinutes (slot_start firstBusy) (- buf)
                    in if isBefore dayStart freeEnd
                       then [\<lparr>slot_start = dayStart, slot_end = freeEnd\<rparr>] else [])
              else [])
             @ gapsBetween sortedBusy buf
             @ (let lastBusy = last sortedBusy;
                    freeStart = addMinutes (slot_end lastBusy) buf
                in if isBefore freeStart dayEnd
                   then [\<lparr>slot_start = freeStart, slot_end = dayEnd\<rparr>] else []))"

text \<open>The loop over the days of the range, for one user.\<close>

function userFreeSlots :: "TimeSlot list \<Rightarrow> WorkingHours \<Rightarrow> int \<Rightarrow> int \<Rightarrow> int \<Rightarrow> TimeSlot list" where
  "userFreeSlots busy wh buf currentDate endDate =
     (if currentDate \<le> endDate
      then (if getDay currentDate \<in> set (days wh)
            then findFreeSlotsInDay busy
                   (parseTimeOnDate (wh_start wh) currentDate)
                   (parseTimeOnDate (wh_end wh) currentDate) buf
            else [])
           @ userFreeSlots busy wh buf (addDays currentDate 1) endDate
      else [])"
  by pat_completeness auto
termination
  by (relation "measure (\<lambda>(busy, wh, buf, cur, e). nat (e - cur + 1))")
     (auto simp: addDays_def msPerDay_def)

text \<open>\<open>opts.bufferMinutes || 0\<close>: an absent or zero buffer is 0.\<close>

definition bufferOf :: "AvailabilityOptions \<Rightarrow> int" where
  "bufferOf opts = (case bufferMinutes opts of Some b \<Rightarrow> b | None \<Rightarrow> 0)"

text \<open>The result object: a later user with the same \<open>userId\<close> overwrites an earlier one.\<close>

fun calculateAvailability_loop ::
  "UserAvailability list \<Rightarrow> int \<Rightarrow> int \<Rightarrow> AvailabilityOptions
     \<Rightarrow> (string \<rightharpoonup> TimeSlot list) \<Rightarrow> (string \<rightharpoonup> TimeSlot list)"
where
  "calculateAvailability_loop [] startDate endDate opts result = result"
| "calculateAvailability_loop (user # rest) startDate endDate opts result =
     calculateAvailability_loop rest startDate endDate opts
       (result(userId user \<mapsto>
          userFreeSlots (busySlots user) (workingHours user) (bufferOf opts) startDate endDate))"

definition calculateAvailability ::
  "UserAvailability list \<Rightarrow> int \<Rightarrow> int \<Rightarrow> AvailabilityOptions \<Rightarrow> (string \<rightharpoonup> TimeSlot list)"
where
  "calculateAvailability users startDate endDate options =
     calculateAvailability_loop users startDate endDate
       (mergeOptions defaultOptions options) Map.empty"

text \<open>The candidate slots of one day, every 30 minutes.\<close>

function daySlots :: "int \<Rightarrow> int \<Rightarrow> int \<Rightarrow> TimeSlot list" where
  "daySlots slotStart dur dayEnd =
     (if addMinutes slotStart dur \<le> dayEnd
      then \<lparr>slot_start = slotStart, slot_end = addMinutes slotStart dur\<rparr>
           # daySlots (addMinutes slotStart 30) dur dayEnd
      else [])"
  by pat_completeness auto
termination
  by (relation "measure (\<lambda>(s, dur, e). nat (e - (s + dur * 60000) + 1))")
     (auto simp: addMinutes_def)

function generateTimeSlots_loop :: "WorkingHours \<Rightarrow> int \<Rightarrow> int \<Rightarrow> int \<Rightarrow> TimeSlot list" where
  "generateTimeSlots_loop wh dur currentDate endDate =
     (if currentDate \<le> endDate
      then (if getDay currentDate \<in> set (days wh)
            then daySlots (parseTimeOnDate (wh_start wh) currentDate) dur
                          (parseTimeOnDate (wh_end wh) currentDate)
            else [])
           @ generateTimeSlots_loop wh dur (addDays currentDate 1) endDate
      else [])"
  by pat_completeness auto
termination
  by (relation "measure (\<lambda>(wh, dur, cur, e). nat (e - cur + 1))")
     (auto simp: addDays_def msPerDay_def)

definition generateTimeSlots :: "int \<Rightarrow> int \<Rightarrow> int \<Rightarrow> AvailabilityOptions \<Rightarrow> TimeSlot list" where
  "generateTimeSlots startDate endDate dur options =
     generateTimeSlots_loop
       (case opt_workingHours options of Some wh \<Rightarrow> wh | None \<Rightarrow> defaultWorkingHours)
       dur startDate endDate"

definition isSlotAvailable :: "TimeSlot \<Rightarrow> TimeSlot list \<Rightarrow> bool" where
  "isSlotAvailable slot freeSlots =
     list_ex (\<lambda>freeSlot. \<not> isBefore (slot_start slot) (slot_start freeSlot)
                        \<and> \<not> isAfter (slot_end slot) (slot_end freeSlot)) freeSlots"

text \<open>Division of two counts: \<open>0 / 0\<close> is \<open>NaN\<close>.\<close>

definition ratio :: "nat \<Rightarrow> nat \<Rightarrow> rat option" where
  "ratio a b = (if b = 0 then None else Some (of_nat a / of_nat b))"

definition calculateSlotScore :: "TimeSlot \<Rightarrow> nat \<Rightarrow> nat \<Rightarrow> rat option" where
  "calculateSlotScore slot availableCount totalCount =
     map_option (\<lambda>s0.
       (let hour = getHours (slot_start slot);
            minute = getMinutes (slot_start slot);
            s1 = (if minute = 0 then s0 * (6/5) else if minute = 30 then s0 * (11/10) else s0);
            s2 = (if (hour \<ge> 9 \<and> hour \<le> 11) \<or> (hour \<ge> 13 \<and> hour \<le> 16)
                  then s1 * (13/10) else s1);
            s3 = (if hour < 9 \<or> hour > 16 then s2 * (9/10) else s2);
            s4 = (if hour = 13 then s3 * (19/20) else s3);
            s5 = (if hour \<ge> 17 then s4 * (4/5) else s4)
        in s5)) (ratio availableCount totalCount)"

text \<open>
  The users available for a slot, in the order of the user list. Every user's id is a
  key of the availability object, so the lookup always succeeds.
\<close>

definition availableUsers_of ::
  "UserAvailability list \<Rightarrow> (string \<rightharpoonup> TimeSlot list) \<Rightarrow> TimeSlot \<Rightarrow> string list"
where
  "availableUsers_of users userAvailabilities slot =
     map userId (filter (\<lambda>user.
        case userAvailabilities (userId user) of
          Some userFree \<Rightarrow> isSlotAvailable slot userFree
        | None \<Rightarrow> False) users)"

definition minParticipants_of :: "UserAvailability list \<Rightarrow> int" where
  \<comment> \<open>\<open>Math.ceil(users.length * 0.6)\<close>\<close>
  "minParticipants_of users = \<lceil>(of_nat (length users) :: rat) * (6/10)\<rceil>"

text \<open>The loop over the candidate slots, collecting the suggestions that reach the
  minimum number of participants.\<close>

fun suggestions_loop ::
  "UserAvailability list \<Rightarrow> (string \<rightharpoonup> TimeSlot list) \<Rightarrow> int \<Rightarrow> TimeSlot list
     \<Rightarrow> MeetingSuggestion list"
where
  "suggestions_loop users userAvailabilities dur [] = []"
| "suggestions_loop users userAvailabilities dur (slot # slots) =
     (let availableUsers = availableUsers_of users userAvailabilities slot
      in if int (length availableUsers) \<ge> minParticipants_of users
         then \<lparr>sug_start = slot_start slot, sug_end = slot_end slot, duration = dur,
               availableParticipants = availableUsers,
               confidence = ratio (length availableUsers) (length users),
               score = calculateSlotScore slot (length availableUsers) (length users)\<rparr>
              # suggestions_loop users userAvailabilities dur slots
         else suggestions_loop users userAvailabilities dur slots)"

text \<open>
  \<open>sort((a, b) => b.score - a.score)\<close>: a stable sort by descending score. A \<open>NaN\<close>
  difference compares as equal, and \<open>NaN\<close> scores only occur all together.
\<close>

definition scoreKey :: "MeetingSuggestion \<Rightarrow> rat" where
  \<comment> \<open>the key of an ascending sort that orders by descending score\<close>
  "scoreKey s = (case score s of Some x \<Rightarrow> - x | None \<Rightarrow> 0)"

definition sortByScore :: "MeetingSuggestion list \<Rightarrow> MeetingSuggestion list" where
  "sortByScore xs = sort_key scoreKey xs"

definition qualifyingSuggestions ::
  "UserAvailability list \<Rightarrow> int \<Rightarrow> int \<Rightarrow> int \<Rightarrow> AvailabilityOptions \<Rightarrow> MeetingSuggestion list"
where
  "qualifyingSuggestions users dur startDate endDate options =
     (let opts = mergeOptions defaultOptions options
      in suggestions_loop users (calculateAvailability users startDate endDate opts) dur
           (generateTimeSlots startDate endDate dur opts))"

definition suggestMeetingTimes ::
  "UserAvailability list \<Rightarrow> int \<Rightarrow> int \<Rightarrow> int \<Rightarrow> AvailabilityOptions \<Rightarrow> MeetingSuggestion list"
where
  "suggestMeetingTimes users dur startDate endDate options =
     take 10 (sortByScore (qualifyingSuggestions users dur startDate endDate options))"


section \<open>Conflict detector (ConflictDetector)\<close>

record Event =
  event_id :: string
  event_title :: string
  startTime :: int
  endTime :: int
  calendarId :: string
  isWork :: bool
  event_userId :: string

datatype ConflictType = overlap | double_booking | back_to_back | travel_time

datatype Severity = low | medium | high | critical

text \<open>
  The conflict value. Its \<open>description\<close> and \<open>suggestions\<close>, templated text for the
  reader, are left out of the model.
\<close>

record Conflict =
  conflict_id :: string
  conflict_type :: ConflictType
  severity :: Severity
  primaryEvent :: Event
  conflictingEvent :: Event
  overlapDuration :: "int option"

record ConflictDetectionOptions =
  includeBackToBack :: "bool option"
  travelTimeMinutes :: "rat option"
  workPersonalSeparation :: "bool option"

definition defaultConflictOptions :: ConflictDetectionOptions where
  "defaultConflictOptions =
     \<lparr>includeBackToBack = Some True, travelTimeMinutes = Some 15,
      workPersonalSeparation = Some False\<rparr>"

definition mergeConflictOptions ::
  "ConflictDetectionOptions \<Rightarrow> ConflictDetectionOptions \<Rightarrow> ConflictDetectionOptions"
where
  "mergeConflictOptions d opts =
     \<lparr>includeBackToBack = spread (includeBackToBack d) (includeBackToBack opts),
      travelTimeMinutes = spread (travelTimeMinutes d) (travelTimeMinutes opts),
      workPersonalSeparation = spread (workPersonalSeparation d) (workPersonalSeparation opts)\<rparr>"

definition conflictIdOf :: "Event \<Rightarrow> Event \<Rightarrow> string" where
  "conflictIdOf event1 event2 = ''conflict_'' @ event_id event1 @ ''_'' @ event_id event2"

text \<open>A span of milliseconds in minutes.\<close>

definition msToMinutes :: "int \<Rightarrow> rat" where
  "msToMinutes ms = of_int ms / 60000"

definition checkOverlap :: "Event \<Rightarrow> Event \<Rightarrow> Conflict option" where
  "checkOverlap event1 event2 =
     (let event1Start = startTime event1; event1End = endTime event1;
          event2Start = startTime event2; event2End = endTime event2
      in if (isBefore event1Start event2End \<and> isAfter event1End event2Start)
            \<or> (isBefore event2Start event1End \<and> isAfter event2End event1Start)
            \<or> (isEqual event1Start event2Start \<and> isEqual event1End event2End)
         then
           (let overlapStart = max event1Start event2Start;
                overlapEnd = min event1End event2End;
                overlapMinutes = Math_round (msToMinutes (overlapEnd - overlapStart));
                (sev, ty) =
                  (if isEqual event1Start event2Start \<and> isEqual event1End event2End
                   then (critical, double_booking)
                   else if of_int overlapMinutes
                           > min (msToMinutes (event1End - event1Start))
                                 (msToMinutes (event2End - event2Start)) * (1/2)
                   then (high, overlap)
                   else if overlapMinutes > 30
                   then (medium, overlap)
                   else (low, overlap))
            in Some \<lparr>conflict_id = conflictIdOf event1 event2,
                     conflict_type = ty, severity = sev,
                     primaryEvent = event1, conflictingEvent = event2,
                     overlapDuration = Some overlapMinutes\<rparr>)
         else None)"

definition checkBackToBack :: "Event \<Rightarrow> Event \<Rightarrow> rat \<Rightarrow> Conflict option" where
  "checkBackToBack event1 event2 travel =
     (let event1End = endTime event1;
          event2Start = startTime event2;
          timeBetween = msToMinutes (event2Start - event1End)
      in if timeBetween \<ge> 0 \<and> timeBetween < travel
         then
           (let sev = (if timeBetween = 0 then medium
                       else if timeBetween < 5 then medium
                       else low)
            in Some \<lparr>conflict_id = conflictIdOf event1 event2,
                     conflict_type = travel_time, severity = sev,
                     primaryEvent = event1, conflictingEvent = event2,
                     overlapDuration = None\<rparr>)
         else None)"

definition checkWorkPersonalSeparation :: "Event \<Rightarrow> Event \<Rightarrow> Conflict option" where
  "checkWorkPersonalSeparation event1 event2 =
     (if isWork event1 \<noteq> isWork event2
      then
        (let workEvent = (if isWork event1 then event1 else event2);
             personalEvent = (if isWork event1 then event2 else event1);
             workEventHour = getHours (startTime workEvent)
         in if workEventHour < 9 \<or> workEventHour \<ge> 17
            then Some \<lparr>conflict_id = conflictIdOf event1 event2,
                       conflict_type = overlap, severity = medium,
                       primaryEvent = workEvent, conflictingEvent = personalEvent,
                       overlapDuration = None\<rparr>
            else None)
      else None)"

text \<open>
  The three checks in their order; the first that finds a conflict decides. An option
  is truthy when it is set and neither \<open>false\<close> nor 0.
\<close>

definition detectConflictBetweenEvents ::
  "Event \<Rightarrow> Event \<Rightarrow> ConflictDetectionOptions \<Rightarrow> Conflict option"
where
  "detectConflictBetweenEvents event1 event2 options =
     (case checkOverlap event1 event2 of
        Some overlapConflict \<Rightarrow> Some overlapConflict
      | None \<Rightarrow>
         (case (if includeBackToBack options = Some True
                then (case travelTimeMinutes options of
                        Some travel \<Rightarrow>
                          (if travel \<noteq> 0 then checkBackToBack event1 event2 travel else None)
                      | None \<Rightarrow> None)
                else None) of
            Some backToBackConflict \<Rightarrow> Some backToBackConflict
          | None \<Rightarrow>
             (if workPersonalSeparation options = Some True
              then checkWorkPersonalSeparation event1 event2
              else None)))"

text \<open>\<open>parts.join(sep)\<close>.\<close>

fun join :: "string \<Rightarrow> string list \<Rightarrow> string" where
  "join sep [] = []"
| "join sep [x] = x"
| "join sep (x # y # rest) = x @ sep @ join sep (y # rest)"

text \<open>
  The key of a conflict: its two event ids, sorted and joined by \<open>_\<close>. The default
  \<open>sort()\<close> orders strings by their code units, which on ASCII is the lexicographic
  order of \<^typ>\<open>string\<close>.
\<close>

definition conflictKey :: "Conflict \<Rightarrow> string" where
  "conflictKey c = join ''_'' (sort [event_id (primaryEvent c), event_id (conflictingEvent c)])"

fun deduplicate_loop :: "string list \<Rightarrow> Conflict list \<Rightarrow> Conflict list" where
  "deduplicate_loop seen [] = []"
| "deduplicate_loop seen (c # cs) =
     (if conflictKey c \<in> set seen then deduplicate_loop seen cs
      else c # deduplicate_loop (conflictKey c # seen) cs)"

definition deduplicateConflicts :: "Conflict list \<Rightarrow> Conflict list" where
  "deduplicateConflicts conflicts = deduplicate_loop [] conflicts"

text \<open>The inner loop over \<open>j > i\<close> and the outer loop over \<open>i\<close>.\<close>

fun conflictsWithLater :: "ConflictDetectionOptions \<Rightarrow> Event \<Rightarrow> Event list \<Rightarrow> Conflict list" where
  "conflictsWithLater opts event1 [] = []"
| "conflictsWithLater opts event1 (event2 # rest) =
     (if calendarId event1 = calendarId event2 then conflictsWithLater opts event1 rest
      else (case detectConflictBetweenEvents event1 event2 opts of
              Some conflict \<Rightarrow> conflict # conflictsWithLater opts event1 rest
            | None \<Rightarrow> conflictsWithLater opts event1 rest))"

fun allPairConflicts :: "ConflictDetectionOptions \<Rightarrow> Event list \<Rightarrow> Conflict list" where
  "allPairConflicts opts [] = []"
| "allPairConflicts opts (event1 # rest) =
     conflictsWithLater opts event1 rest @ allPairConflicts opts rest"

definition detectConflicts :: "Event list \<Rightarrow> ConflictDetectionOptions \<Rightarrow> Conflict list" where
  "detectConflicts events options =
     (let opts = mergeConflictOptions defaultConflictOptions options;
          sortedEvents = sort_key startTime events
      in deduplicateConflicts (allPairConflicts opts sortedEvents))"

fun detectConflictsForEvent_loop ::
  "ConflictDetectionOptions \<Rightarrow> Event \<Rightarrow> Event list \<Rightarrow> Conflict list"
where
  "detectConflictsForEvent_loop opts newEvent [] = []"
| "detectConflictsForEvent_loop opts newEvent (existingEvent # rest) =
     (if event_id existingEvent = event_id newEvent
      then detectConflictsForEvent_loop opts newEvent rest
      else (case detectConflictBetweenEvents newEvent existingEvent opts of
              Some conflict \<Rightarrow> conflict # detectConflictsForEvent_loop opts newEvent rest
            | None \<Rightarrow> detectConflictsForEvent_loop opts newEvent rest))"

definition detectConflictsForEvent ::
  "Event \<Rightarrow> Event list \<Rightarrow> ConflictDetectionOptions \<Rightarrow> Conflict list"
where
  "detectConflictsForEvent newEvent existingEvents options =
     detectConflictsForEvent_loop (mergeConflictOptions defaultConflictOptions options)
       newEvent existingEvents"


section \<open>Notions of the specification\<close>

text \<open>
  The predicates below are not functions of the source: they write down the words of
  the specification, for the statements that follow.
\<close>

text \<open>The interval model's overlap test: open intervals, touching ends do not overlap.\<close>

definition spec_overlaps :: "TimeSlot \<Rightarrow> TimeSlot \<Rightarrow> bool" where
  "spec_overlaps a b = (slot_start a < slot_end b \<and> slot_start b < slot_end a)"

definition eventsOverlap :: "Event \<Rightarrow> Event \<Rightarrow> bool" where
  "eventsOverlap a b = (startTime a < endTime b \<and> startTime b < endTime a)"

text \<open>A well-formed event ends after it starts.\<close>

definition wellFormed :: "Event \<Rightarrow> bool" where
  "wellFormed e = (startTime e < endTime e)"

text \<open>
  The overlap of two events in minutes, as a conflict carries it: the length of the
  intersection, rounded to whole minutes.
\<close>

definition overlapMinutesOf :: "Event \<Rightarrow> Event \<Rightarrow> int" where
  "overlapMinutesOf a b =
     Math_round (msToMinutes (min (endTime a) (endTime b) - max (startTime a) (startTime b)))"

definition durationMinutes :: "Event \<Rightarrow> rat" where
  "durationMinutes e = msToMinutes (endTime e - startTime e)"

text \<open>The classification of an overlapping pair, in the words of the specification.\<close>

definition spec_overlap_class :: "Event \<Rightarrow> Event \<Rightarrow> ConflictType \<times> Severity" where
  "spec_overlap_class a b =
     (if startTime a = startTime b \<and> endTime a = endTime b then (double_booking, critical)
      else if of_int (overlapMinutesOf a b) > (1/2) * min (durationMinutes a) (durationMinutes b)
      then (overlap, high)
      else if overlapMinutesOf a b > 30 then (overlap, medium)
      else (overlap, low))"

definition classOf :: "Conflict \<Rightarrow> ConflictType \<times> Severity" where
  "classOf c = (conflict_type c, severity c)"

text \<open>A conflict at a glance: the ids of its two events, its type and its severity.\<close>

definition conflictSummary :: "Conflict \<Rightarrow> string \<times> string \<times> ConflictType \<times> Severity" where
  "conflictSummary c =
     (event_id (primaryEvent c), event_id (conflictingEvent c), conflict_type c, severity c)"

text \<open>The unordered pair of event ids of a conflict.\<close>

definition conflictPair :: "Conflict \<Rightarrow> string set" where
  "conflictPair c = {event_id (primaryEvent c), event_id (conflictingEvent c)}"

section \<open>Example inputs\<close>

text \<open>Monday 5 January 1970, 00:00 UTC, and one hour, in milliseconds.\<close>

definition monday :: int where
  "monday = 345600000"

definition hour_ms :: int where
  "hour_ms = 3600000"

definition noAvailabilityOptions :: AvailabilityOptions where
  "noAvailabilityOptions =
     \<lparr>opt_workingHours = None, bufferMinutes = None,
      minMeetingDuration = None, maxMeetingDuration = None\<rparr>"

text \<open>A user whose one busy slot, 08:00 to 18:00, spans the whole working window.\<close>

definition spanningUser :: UserAvailability where
  "spanningUser =
     \<lparr>userId = ''u3'', user_name = ''Cy'', email = ''cy@example.org'',
      busySlots = [\<lparr>slot_start = monday + 8 * hour_ms, slot_end = monday + 18 * hour_ms\<rparr>],
      workingHours = defaultWorkingHours\<rparr>"

text \<open>A user whose working window is 09:00 to 09:00.\<close>

definition zeroWindowUser :: UserAvailability where
  "zeroWindowUser =
     \<lparr>userId = ''u4'', user_name = ''Di'', email = ''di@example.org'',
      busySlots = [],
      workingHours = \<lparr>wh_start = \<lparr>hours = 9, minutes = 0\<rparr>,
                      wh_end = \<lparr>hours = 9, minutes = 0\<rparr>, days = [1, 2, 3, 4, 5]\<rparr>\<rparr>"

text \<open>Two users with nothing booked, and one booked from 09:00 to 17:00.\<close>

definition freeUser1 :: UserAvailability where
  "freeUser1 =
     \<lparr>userId = ''u1'', user_name = ''Ann'', email = ''ann@example.org'',
      busySlots = [], workingHours = defaultWorkingHours\<rparr>"

definition freeUser2 :: UserAvailability where
  "freeUser2 =
     \<lparr>userId = ''u2'', user_name = ''Bob'', email = ''bob@example.org'',
      busySlots = [], workingHours = defaultWorkingHours\<rparr>"

definition bookedUser :: UserAvailability where
  "bookedUser =
     \<lparr>userId = ''u5'', user_name = ''Eve'', email = ''eve@example.org'',
      busySlots = [\<lparr>slot_start = monday + 9 * hour_ms, slot_end = monday + 17 * hour_ms\<rparr>],
      workingHours = defaultWorkingHours\<rparr>"

definition exampleUsers :: "UserAvailability list" where
  "exampleUsers = [freeUser1, freeUser2, bookedUser]"

definition noConflictOptions :: ConflictDetectionOptions where
  "noConflictOptions =
     \<lparr>includeBackToBack = None, travelTimeMinutes = None, workPersonalSeparation = None\<rparr>"

definition separationOptions :: ConflictDetectionOptions where
  "separationOptions =
     \<lparr>includeBackToBack = Some True, travelTimeMinutes = Some 15,
      workPersonalSeparation = Some True\<rparr>"

text \<open>Two events back to back: 09:00 to 10:00 and 10:00 to 11:00.\<close>

definition standup :: Event where
  "standup =
     \<lparr>event_id = ''a'', event_title = ''Standup'',
      startTime = monday + 9 * hour_ms, endTime = monday + 10 * hour_ms,
      calendarId = ''work'', isWork = True, event_userId = ''u1''\<rparr>"

definition review :: Event where
  "review =
     \<lparr>event_id = ''b'', event_title = ''Review'',
      startTime = monday + 10 * hour_ms, endTime = monday + 11 * hour_ms,
      calendarId = ''team'', isWork = True, event_userId = ''u1''\<rparr>"

text \<open>One minute, in milliseconds.\<close>

definition minute_ms :: int where
  "minute_ms = 60000"

text \<open>
  Five events of one day, given out of order. The seminar and the lunch date have the
  same interval, 13:00 to 14:00, in different calendars; their ids \<open>a\<close> and \<open>b_c\<close>
  give the same key \<open>a_b_c\<close> as the ids \<open>a_b\<close> and \<open>c\<close> of the budget review and
  the dentist.
\<close>

definition budgetReview :: Event where
  "budgetReview =
     \<lparr>event_id = ''a_b'', event_title = ''Budget review'',
      startTime = monday + 9 * hour_ms, endTime = monday + 10 * hour_ms,
      calendarId = ''work'', isWork = True, event_userId = ''u1''\<rparr>"

definition deskCheck :: Event where
  "deskCheck =
     \<lparr>event_id = ''z'', event_title = ''Desk check'',
      startTime = monday + 9 * hour_ms + 15 * minute_ms,
      endTime = monday + 9 * hour_ms + 45 * minute_ms,
      calendarId = ''work'', isWork = True, event_userId = ''u1''\<rparr>"

definition dentist :: Event where
  "dentist =
     \<lparr>event_id = ''c'', event_title = ''Dentist'',
      startTime = monday + 9 * hour_ms + 30 * minute_ms,
      endTime = monday + 10 * hour_ms + 30 * minute_ms,
      calendarId = ''home'', isWork = True, event_userId = ''u1''\<rparr>"

definition seminar :: Event where
  "seminar =
     \<lparr>event_id = ''a'', event_title = ''Seminar'',
      startTime = monday + 13 * hour_ms, endTime = monday + 14 * hour_ms,
      calendarId = ''work'', isWork = True, event_userId = ''u1''\<rparr>"

definition lunchDate :: Event where
  "lunchDate =
     \<lparr>event_id = ''b_c'', event_title = ''Lunch date'',
      startTime = monday + 13 * hour_ms, endTime = monday + 14 * hour_ms,
      calendarId = ''home'', isWork = True, event_userId = ''u1''\<rparr>"

definition collidingOverlapEvents :: "Event list" where
  "collidingOverlapEvents = [seminar, dentist, budgetReview, lunchDate, deskCheck]"

text \<open>
  Five events of one day with two pairs back to back: the briefing ends at 10:00 when
  the physio starts, the retro ends at 12:00 when the pickup starts. The ids collide as
  above.
\<close>

definition briefing :: Event where
  "briefing =
     \<lparr>event_id = ''a_b'', event_title = ''Briefing'',
      startTime = monday + 9 * hour_ms, endTime = monday + 10 * hour_ms,
      calendarId = ''work'', isWork = True, event_userId = ''u1''\<rparr>"

definition inboxSweep :: Event where
  "inboxSweep =
     \<lparr>event_id = ''z'', event_title = ''Inbox sweep'',
      startTime = monday + 9 * hour_ms + 15 * minute_ms,
      endTime = monday + 9 * hour_ms + 45 * minute_ms,
      calendarId = ''work'', isWork = True, event_userId = ''u1''\<rparr>"

definition physio :: Event where
  "physio =
     \<lparr>event_id = ''c'', event_title = ''Physio'',
      startTime = monday + 10 * hour_ms, endTime = monday + 11 * hour_ms,
      calendarId = ''home'', isWork = True, event_userId = ''u1''\<rparr>"

definition retro :: Event where
  "retro =
     \<lparr>event_id = ''a'', event_title = ''Retro'',
      startTime = monday + 11 * hour_ms + 10 * minute_ms, endTime = monday + 12 * hour_ms,
      calendarId = ''work'', isWork = True, event_userId = ''u1''\<rparr>"

definition pickup :: Event where
  "pickup =
     \<lparr>event_id = ''b_c'', event_title = ''Pickup'',
      startTime = monday + 12 * hour_ms, endTime = monday + 13 * hour_ms,
      calendarId = ''home'', isWork = True, event_userId = ''u1''\<rparr>"

definition collidingBackToBackEvents :: "Event list" where
  "collidingBackToBackEvents = [retro, physio, briefing, pickup, inboxSweep]"

text \<open>
  Five events of one day; the late shift, a work event at 18:00, overlaps the dinner, a
  personal event at 18:30. The ids collide as above.
\<close>

definition sprintDemo :: Event where
  "sprintDemo =
     \<lparr>event_id = ''a_b'', event_title = ''Sprint demo'',
      startTime = monday + 10 * hour_ms, endTime = monday + 11 * hour_ms,
      calendarId = ''work'', isWork = True, event_userId = ''u1''\<rparr>"

definition codeWalk :: Event where
  "codeWalk =
     \<lparr>event_id = ''z'', event_title = ''Code walk'',
      startTime = monday + 10 * hour_ms + 15 * minute_ms,
      endTime = monday + 10 * hour_ms + 45 * minute_ms,
      calendarId = ''work'', isWork = True, event_userId = ''u1''\<rparr>"

definition supplierCall :: Event where
  "supplierCall =
     \<lparr>event_id = ''c'', event_title = ''Supplier call'',
      startTime = monday + 10 * hour_ms + 30 * minute_ms,
      endTime = monday + 11 * hour_ms + 30 * minute_ms,
      calendarId = ''team'', isWork = True, event_userId = ''u1''\<rparr>"

definition lateShift :: Event where
  "lateShift =
     \<lparr>event_id = ''a'', event_title = ''Late shift'',
      startTime = monday + 18 * hour_ms, endTime = monday + 19 * hour_ms,
      calendarId = ''work'', isWork = True, event_userId = ''u1''\<rparr>"

definition dinner :: Event where
  "dinner =
     \<lparr>event_id = ''b_c'', event_title = ''Dinner'',
      startTime = monday + 18 * hour_ms + 30 * minute_ms,
      endTime = monday + 19 * hour_ms + 30 * minute_ms,
      calendarId = ''home'', isWork = False, event_userId = ''u1''\<rparr>"

definition collidingSeparationEvents :: "Event list" where
  "collidingSeparationEvents = [lateShift, supplierCall, sprintDemo, dinner, codeWalk]"

section \<open>Properties of the duration estimator\<close>

text \<open>
  Claim C1, as the code has it. For the title "Quick team meeting" with no description
  the estimator returns exactly 29 minutes: the meeting category's base of 30 minutes,
  its multipliers "quick" (0.5) and "team" (1.5), and the collaboration factor 1.3
  that the complexity heuristic applies because the text contains "team";
  \<open>round(30 \<times> 0.5 \<times> 1.5 \<times> 1.3) = round(29.25) = 29\<close>.
\<close>

theorem estimateDuration_quick_team_meeting:
  "estimateDuration ''Quick team meeting'' None = 29
   \<and> Math_round (30 * (1/2) * (3/2) * (13/10)) = 29
   \<and> calculateComplexityMultiplier (estimate_text ''Quick team meeting'' None) 4 = 13/10"
  by code_simp

text \<open>
  Claim C1 as it was stated (the estimate is 23 minutes, \<open>round(30 \<times> 0.5 \<times> 1.5)\<close>)
  does not hold of the code.
\<close>

theorem estimateDuration_quick_team_meeting_not_23:
  "estimateDuration ''Quick team meeting'' None \<noteq> 23"
  by code_simp

text \<open>
  Claim C2, as the code has it. Whenever the text holds no explicit numeric duration,
  or one that amounts to zero minutes (such as "0 minutes"), the estimate lies in
  \<open>[5, 480]\<close>. An explicit numeric duration that is not zero is returned as it is,
  without clamping.
\<close>

theorem estimateDuration_bounds:
  "(extractTimeIndicators (estimate_text title description) = None
      \<or> extractTimeIndicators (estimate_text title description) = Some 0
    \<longrightarrow> 5 \<le> estimateDuration title description
        \<and> estimateDuration title description \<le> 480)
   \<and> (\<forall>t. extractTimeIndicators (estimate_text title description) = Some t \<and> t \<noteq> 0
        \<longrightarrow> estimateDuration title description = t)"
  by (auto simp: estimateDuration_def Let_def)

theorem estimateDuration_bounds_witness:
  "extractTimeIndicators (estimate_text ''0 minutes'' None) = Some 0
   \<and> 5 \<le> estimateDuration ''0 minutes'' None
   \<and> estimateDuration ''0 minutes'' None \<le> 480
   \<and> extractTimeIndicators (estimate_text ''2 days'' None) = Some 960
   \<and> estimateDuration ''2 days'' None = 960"
proof -
  have z: "extractTimeIndicators (estimate_text ''0 minutes'' None) = Some 0"
    by code_simp
  have d: "extractTimeIndicators (estimate_text ''2 days'' None) = Some 960"
    by code_simp
  from z estimateDuration_bounds [of "''0 minutes''" None]
  have "5 \<le> estimateDuration ''0 minutes'' None \<and> estimateDuration ''0 minutes'' None \<le> 480"
    by blast
  moreover from d estimateDuration_bounds [of "''2 days''" None]
  have "estimateDuration ''2 days'' None = 960"
    by simp
  ultimately show ?thesis using z d by simp
qed

text \<open>
  Claim C2 as it was stated (every estimate lies in \<open>[5, 480]\<close>, also with an explicit
  numeric duration in the text) fails for the title "2 days", whose estimate is 960.
\<close>

theorem estimateDuration_two_days_out_of_bounds:
  "\<not> (5 \<le> estimateDuration ''2 days'' None \<and> estimateDuration ''2 days'' None \<le> 480)"
  by code_simp
section \<open>Properties of the availability engine\<close>

text \<open>
  Claim C3: no free slot that the engine returns overlaps a busy slot that intersects
  the working window, also when the busy slot starts before the window opens and ends
  after it closes. The code does not keep this: a busy slot is kept for the day only
  when its start or its end lies inside the window, so a slot that spans the window is
  dropped and the whole window is returned as free. Here a user is busy on Monday from
  08:00 to 18:00 and works 09:00 to 17:00; the engine returns 09:00 to 17:00 as free,
  with the default buffer of 15 minutes and with any other.
\<close>

theorem spanning_busy_slot_reported_free:
  "getDay monday = 1
   \<and> calculateAvailability [spanningUser] monday monday noAvailabilityOptions ''u3''
       = Some [\<lparr>slot_start = monday + 9 * hour_ms, slot_end = monday + 17 * hour_ms\<rparr>]
   \<and> findFreeSlotsInDay (busySlots spanningUser)
         (monday + 9 * hour_ms) (monday + 17 * hour_ms) buf
       = [\<lparr>slot_start = monday + 9 * hour_ms, slot_end = monday + 17 * hour_ms\<rparr>]
   \<and> spec_overlaps \<lparr>slot_start = monday + 9 * hour_ms, slot_end = monday + 17 * hour_ms\<rparr>
        \<lparr>slot_start = monday + 8 * hour_ms, slot_end = monday + 18 * hour_ms\<rparr>"
proof (intro conjI)
  show "getDay monday = 1" by code_simp
  show "calculateAvailability [spanningUser] monday monday noAvailabilityOptions ''u3''
       = Some [\<lparr>slot_start = monday + 9 * hour_ms, slot_end = monday + 17 * hour_ms\<rparr>]"
    by code_simp
  have "sortedBusy_of (busySlots spanningUser) (monday + 9 * hour_ms) (monday + 17 * hour_ms) = []"
    by code_simp
  then show "findFreeSlotsInDay (busySlots spanningUser)
         (monday + 9 * hour_ms) (monday + 17 * hour_ms) buf
       = [\<lparr>slot_start = monday + 9 * hour_ms, slot_end = monday + 17 * hour_ms\<rparr>]"
    by (simp add: findFreeSlotsInDay_def)
  show "spec_overlaps \<lparr>slot_start = monday + 9 * hour_ms, slot_end = monday + 17 * hour_ms\<rparr>
        \<lparr>slot_start = monday + 8 * hour_ms, slot_end = monday + 18 * hour_ms\<rparr>"
    by code_simp
qed

text \<open>
  Apart from the busy slots that span the window, the free slots of a day keep clear of
  the busy slots: for a window that does not end before it starts, distinct, well-formed
  busy slots that do not overlap one another and a buffer that is not negative, a free
  slot overlaps no busy slot other than one that starts before the window and ends
  after it. The free slots also lie inside the window.
\<close>

lemma gapsBetween_after_head:
  assumes "sorted_wrt (\<lambda>x y. slot_end x \<le> slot_start y) (x # xs)"
    and "\<forall>s \<in> set (x # xs). slot_start s < slot_end s"
    and "0 \<le> buf"
    and "f \<in> set (gapsBetween (x # xs) buf)"
  shows "slot_end x \<le> slot_start f"
  using assms
proof (induction xs arbitrary: x)
  case Nil
  then show ?case by simp
next
  case (Cons y ys)
  from Cons.prems(4) consider
    (hd) "f = \<lparr>slot_start = addMinutes (slot_end x) buf, slot_end = addMinutes (slot_start y) (- buf)\<rparr>"
    | (tl) "f \<in> set (gapsBetween (y # ys) buf)"
    by (auto simp: Let_def split: if_splits)
  then show ?case
  proof cases
    case hd
    with Cons.prems(3) show ?thesis by (simp add: addMinutes_def)
  next
    case tl
    have "slot_end y \<le> slot_start f"
      using Cons.IH [of y] Cons.prems tl by simp
    moreover have "slot_end x \<le> slot_start y" "slot_start y < slot_end y"
      using Cons.prems by simp_all
    ultimately show ?thesis by linarith
  qed
qed

lemma gapsBetween_avoid:
  assumes "sorted_wrt (\<lambda>x y. slot_end x \<le> slot_start y) xs"
    and "\<forall>s \<in> set xs. slot_start s < slot_end s"
    and "0 \<le> buf"
    and "f \<in> set (gapsBetween xs buf)"
    and "b \<in> set xs"
  shows "slot_end b \<le> slot_start f \<or> slot_end f \<le> slot_start b"
  using assms
proof (induction xs)
  case Nil
  then show ?case by simp
next
  case (Cons x xs)
  show ?case
  proof (cases xs)
    case Nil
    with Cons.prems show ?thesis by simp
  next
    case (Cons y ys)
    from Cons.prems(4) Cons consider
      (hd) "f = \<lparr>slot_start = addMinutes (slot_end x) buf, slot_end = addMinutes (slot_start y) (- buf)\<rparr>"
      | (tl) "f \<in> set (gapsBetween xs buf)"
      by (auto simp: Let_def split: if_splits)
    then show ?thesis
    proof cases
      case hd
      show ?thesis
      proof (cases "b = x")
        case True
        with hd Cons.prems(3) show ?thesis by (simp add: addMinutes_def)
      next
        case False
        with Cons.prems(5) have bxs: "b \<in> set xs" by simp
        have "slot_start y \<le> slot_start b"
        proof (cases "b = y")
          case True then show ?thesis by simp
        next
          case False
          with bxs Cons have "b \<in> set ys" by simp
          with Cons.prems(1) Cons have "slot_end y \<le> slot_start b" by simp
          moreover have "slot_start y < slot_end y" using Cons.prems(2) Cons by simp
          ultimately show ?thesis by linarith
        qed
        with hd Cons.prems(3) show ?thesis by (simp add: addMinutes_def)
      qed
    next
      case tl
      show ?thesis
      proof (cases "b = x")
        case True
        have "slot_end y \<le> slot_start f"
          using gapsBetween_after_head [of y ys buf f] Cons.prems tl Cons by simp
        moreover have "slot_end x \<le> slot_start y" "slot_start y < slot_end y"
          using Cons.prems Cons by simp_all
        ultimately have "slot_end x \<le> slot_start f" by linarith
        with True show ?thesis by simp
      next
        case False
        with Cons.prems(5) have "b \<in> set xs" by simp
        with Cons.IH Cons.prems tl show ?thesis by simp
      qed
    qed
  qed
qed


lemma sorted_wrt_distinct:
  "sorted_wrt P xs \<Longrightarrow> distinct xs \<Longrightarrow> sorted_wrt (\<lambda>x y. P x y \<and> x \<noteq> y) xs"
  by (induction xs) auto

lemma sortedBusy_chain:
  assumes wf: "\<forall>s \<in> set busy. slot_start s < slot_end s"
    and dist: "distinct busy"
    and disj: "\<forall>x \<in> set busy. \<forall>y \<in> set busy. x \<noteq> y \<longrightarrow> \<not> spec_overlaps x y"
  shows "sorted_wrt (\<lambda>x y. slot_end x \<le> slot_start y) (sortedBusy_of busy dayStart dayEnd)"
proof -
  let ?xs = "sortedBusy_of busy dayStart dayEnd"
  have sub: "set ?xs \<subseteq> set busy"
    by (auto simp: sortedBusy_of_def)
  have d: "distinct ?xs"
    using dist by (simp add: sortedBusy_of_def)
  have "sorted (map slot_start ?xs)"
    unfolding sortedBusy_of_def by (rule sorted_sort_key)
  then have s: "sorted_wrt (\<lambda>x y. slot_start x \<le> slot_start y) ?xs"
    by (simp add: sorted_map)
  have "sorted_wrt (\<lambda>x y. slot_start x \<le> slot_start y \<and> x \<noteq> y) ?xs"
    using s d by (rule sorted_wrt_distinct)
  then show ?thesis
  proof (rule sorted_wrt_mono_rel [rotated])
    fix x y
    assume x: "x \<in> set ?xs" and y: "y \<in> set ?xs"
      and xy: "slot_start x \<le> slot_start y \<and> x \<noteq> y"
    from x y sub have xb: "x \<in> set busy" and yb: "y \<in> set busy" by auto
    with disj xy have "\<not> spec_overlaps x y" by blast
    moreover from wf yb have "slot_start y < slot_end y" by blast
    ultimately show "slot_end x \<le> slot_start y"
      using xy by (auto simp: spec_overlaps_def)
  qed
qed


lemma sorted_wrt_last:
  assumes "sorted_wrt P xs" "b \<in> set xs" "b \<noteq> last xs"
  shows "P b (last xs)"
proof -
  from assms(2) have ne: "xs \<noteq> []" by auto
  then have xs: "xs = butlast xs @ [last xs]" by simp
  with assms(2,3) have "b \<in> set (butlast xs)"
    by (metis Un_iff empty_iff insert_iff list.simps(15) set_append set_empty2)
  moreover from assms(1) xs have "\<forall>x \<in> set (butlast xs). P x (last xs)"
    by (metis list.set_intros(1) sorted_wrt_append)
  ultimately show ?thesis by blast
qed

lemma kept_in_window:
  assumes "x \<in> set (sortedBusy_of busy dayStart dayEnd)"
    and "\<forall>s \<in> set busy. slot_start s < slot_end s"
  shows "dayStart \<le> slot_end x \<and> slot_start x \<le> dayEnd \<and> x \<in> set busy"
  using assms by (fastforce simp: sortedBusy_of_def isWithinInterval_def)

lemma gapsBetween_ends:
  "f \<in> set (gapsBetween xs buf) \<Longrightarrow>
     \<exists>x \<in> set xs. \<exists>y \<in> set xs.
        slot_start f = addMinutes (slot_end x) buf \<and> slot_end f = addMinutes (slot_start y) (- buf)"
  by (induction xs buf rule: gapsBetween.induct) (auto simp: Let_def split: if_splits)

lemma findFreeSlotsInDay_within_window:
  assumes wf: "\<forall>s \<in> set busy. slot_start s < slot_end s"
    and buf: "0 \<le> buf"
    and f: "f \<in> set (findFreeSlotsInDay busy dayStart dayEnd buf)"
  shows "dayStart \<le> slot_start f \<and> slot_end f \<le> dayEnd"
proof (cases "sortedBusy_of busy dayStart dayEnd")
  case Nil
  with f show ?thesis by (simp add: findFreeSlotsInDay_def)
next
  case (Cons x rest)
  let ?xs = "sortedBusy_of busy dayStart dayEnd"
  have kept: "\<And>z. z \<in> set ?xs \<Longrightarrow> dayStart \<le> slot_end z \<and> slot_start z \<le> dayEnd"
    using kept_in_window [OF _ wf] by blast
  have lastin: "last ?xs \<in> set ?xs" using Cons by simp
  have xin: "x \<in> set ?xs" using Cons by simp
  from f Cons consider
    (before) "f = \<lparr>slot_start = dayStart, slot_end = addMinutes (slot_start x) (- buf)\<rparr>"
    | (gap) "f \<in> set (gapsBetween ?xs buf)"
    | (after) "f = \<lparr>slot_start = addMinutes (slot_end (last ?xs)) buf, slot_end = dayEnd\<rparr>"
    by (auto simp: findFreeSlotsInDay_def Let_def split: if_splits)
  then show ?thesis
  proof cases
    case before
    with kept [OF xin] buf show ?thesis by (simp add: addMinutes_def)
  next
    case gap
    from gapsBetween_ends [OF gap] obtain p q where
      "p \<in> set ?xs" "q \<in> set ?xs"
      "slot_start f = addMinutes (slot_end p) buf" "slot_end f = addMinutes (slot_start q) (- buf)"
      by blast
    with kept [of p] kept [of q] buf show ?thesis by (simp add: addMinutes_def)
  next
    case after
    with kept [OF lastin] buf show ?thesis by (simp add: addMinutes_def)
  qed
qed

lemma findFreeSlotsInDay_avoids_busy:
  assumes win: "dayStart \<le> dayEnd"
    and wf: "\<forall>s \<in> set busy. slot_start s < slot_end s"
    and dist: "distinct busy"
    and disj: "\<forall>x \<in> set busy. \<forall>y \<in> set busy. x \<noteq> y \<longrightarrow> \<not> spec_overlaps x y"
    and buf: "0 \<le> buf"
    and f: "f \<in> set (findFreeSlotsInDay busy dayStart dayEnd buf)"
    and b: "b \<in> set busy"
    and ns: "\<not> (slot_start b < dayStart \<and> dayEnd < slot_end b)"
  shows "\<not> spec_overlaps f b"
proof (cases "b \<in> set (sortedBusy_of busy dayStart dayEnd)")
  case False
  with b have out: "\<not> isWithinInterval (slot_start b) dayStart dayEnd"
    "\<not> isWithinInterval (slot_end b) dayStart dayEnd"
    by (auto simp: sortedBusy_of_def)
  from wf b have "slot_start b < slot_end b" by blast
  with out ns have "slot_end b < dayStart \<or> dayEnd < slot_start b"
    by (auto simp: isWithinInterval_def)
  with findFreeSlotsInDay_within_window [OF wf buf f] show ?thesis
    by (auto simp: spec_overlaps_def)
next
  case True
  let ?xs = "sortedBusy_of busy dayStart dayEnd"
  have chain: "sorted_wrt (\<lambda>x y. slot_end x \<le> slot_start y) ?xs"
    using wf dist disj by (rule sortedBusy_chain)
  have wfx: "\<forall>s \<in> set ?xs. slot_start s < slot_end s"
    using wf by (auto simp: sortedBusy_of_def)
  from True obtain x rest where Cons: "?xs = x # rest"
    by (cases ?xs) auto
  from f Cons consider
    (before) "f = \<lparr>slot_start = dayStart, slot_end = addMinutes (slot_start x) (- buf)\<rparr>"
    | (gap) "f \<in> set (gapsBetween ?xs buf)"
    | (after) "f = \<lparr>slot_start = addMinutes (slot_end (last ?xs)) buf, slot_end = dayEnd\<rparr>"
    by (auto simp: findFreeSlotsInDay_def Let_def split: if_splits)
  then have "slot_end b \<le> slot_start f \<or> slot_end f \<le> slot_start b"
  proof cases
    case before
    have "slot_start x \<le> slot_start b"
    proof (cases "b = x")
      case True then show ?thesis by simp
    next
      case False
      with True Cons have "b \<in> set rest" by simp
      with chain Cons have "slot_end x \<le> slot_start b" by simp
      moreover from wfx Cons have "slot_start x < slot_end x" by simp
      ultimately show ?thesis by linarith
    qed
    with before buf show ?thesis by (simp add: addMinutes_def)
  next
    case gap
    from gapsBetween_avoid [OF chain wfx buf gap True] show ?thesis .
  next
    case after
    have "slot_end b \<le> slot_end (last ?xs)"
    proof (cases "b = last ?xs")
      case True then show ?thesis by simp
    next
      case False
      from sorted_wrt_last [OF chain True False]
      have "slot_end b \<le> slot_start (last ?xs)" .
      moreover have "last ?xs \<in> set ?xs" using Cons by simp
      with wfx have "slot_start (last ?xs) < slot_end (last ?xs)" by blast
      ultimately show ?thesis by linarith
    qed
    with after buf show ?thesis by (simp add: addMinutes_def)
  qed
  then show ?thesis by (auto simp: spec_overlaps_def)
qed

text \<open>
  Claim C4: every returned slot has its start before its end, and a working window of
  length zero yields no free slot. The code does not keep this: when no busy slot
  touches the window, the window itself is returned without the comparison that the
  three other places make. For a window from \<open>d\<close> to \<open>d\<close> and no busy slots the
  result is the slot from \<open>d\<close> to \<open>d\<close>; so it is for a user who works from 09:00
  to 09:00.
\<close>

theorem zero_length_window_reported_free:
  "findFreeSlotsInDay [] d d buf = [\<lparr>slot_start = d, slot_end = d\<rparr>]
   \<and> calculateAvailability [zeroWindowUser] monday monday noAvailabilityOptions ''u4''
       = Some [\<lparr>slot_start = monday + 9 * hour_ms, slot_end = monday + 9 * hour_ms\<rparr>]"
proof (intro conjI)
  show "findFreeSlotsInDay [] d d buf = [\<lparr>slot_start = d, slot_end = d\<rparr>]"
    by (simp add: findFreeSlotsInDay_def sortedBusy_of_def)
  show "calculateAvailability [zeroWindowUser] monday monday noAvailabilityOptions ''u4''
       = Some [\<lparr>slot_start = monday + 9 * hour_ms, slot_end = monday + 9 * hour_ms\<rparr>]"
    by code_simp
qed

text \<open>
  Apart from the empty case, a returned slot does start before it ends: when the
  window has positive length, or when some busy slot is kept for the day.
\<close>

lemma gapsBetween_wellFormed:
  "f \<in> set (gapsBetween xs buf) \<Longrightarrow> slot_start f < slot_end f"
  by (induction xs buf rule: gapsBetween.induct)
     (auto simp: Let_def isBefore_def split: if_splits)

lemma findFreeSlotsInDay_wellFormed:
  assumes "dayStart < dayEnd \<or> sortedBusy_of busy dayStart dayEnd \<noteq> []"
    and "f \<in> set (findFreeSlotsInDay busy dayStart dayEnd buf)"
  shows "slot_start f < slot_end f"
  using assms gapsBetween_wellFormed [of f "sortedBusy_of busy dayStart dayEnd" buf]
  by (auto simp: findFreeSlotsInDay_def Let_def isBefore_def split: list.splits if_splits)

section \<open>Properties of the meeting suggester\<close>

lemma suggestions_loop_quorum:
  "s \<in> set (suggestions_loop users ua dur slots)
   \<Longrightarrow> minParticipants_of users \<le> int (length (availableParticipants s))"
  by (induction slots) (auto simp: Let_def split: if_splits)

lemma set_sortByScore: "set (sortByScore xs) = set xs"
  by (simp add: sortByScore_def)


lemma suggestMeetingTimes_subset:
  "set (suggestMeetingTimes users dur startDate endDate options)
   \<subseteq> set (qualifyingSuggestions users dur startDate endDate options)"
  unfolding suggestMeetingTimes_def
  using set_take_subset [of 10 "sortByScore (qualifyingSuggestions users dur startDate endDate options)"]
  by (simp add: set_sortByScore)

text \<open>
  Claim C9: every suggestion that \<open>suggestMeetingTimes\<close> returns has at least
  \<open>ceil(0.6 \<times> number of users)\<close> available participants, for every user list,
  duration, date range and options.
\<close>

theorem suggestMeetingTimes_quorum:
  "\<forall>s \<in> set (suggestMeetingTimes users dur startDate endDate options).
     \<lceil>(6/10) * (of_nat (length users) :: rat)\<rceil> \<le> int (length (availableParticipants s))"
proof
  fix s
  assume "s \<in> set (suggestMeetingTimes users dur startDate endDate options)"
  then have "s \<in> set (qualifyingSuggestions users dur startDate endDate options)"
    using suggestMeetingTimes_subset by blast
  then have "minParticipants_of users \<le> int (length (availableParticipants s))"
    unfolding qualifyingSuggestions_def Let_def by (rule suggestions_loop_quorum)
  then show "\<lceil>(6/10) * (of_nat (length users) :: rat)\<rceil> \<le> int (length (availableParticipants s))"
    by (simp add: minParticipants_of_def mult.commute)
qed

text \<open>
  With three users of whom one is booked all day, the threshold is 2, and each of the
  ten suggestions names the two free users.
\<close>

theorem suggestMeetingTimes_quorum_witness:
  "length (suggestMeetingTimes exampleUsers 30 monday monday noAvailabilityOptions) = 10
   \<and> \<lceil>(6/10) * (of_nat (length exampleUsers) :: rat)\<rceil> = 2
   \<and> list_all (\<lambda>s. 2 \<le> int (length (availableParticipants s))
                    \<and> availableParticipants s = [''u1'', ''u2''])
        (suggestMeetingTimes exampleUsers 30 monday monday noAvailabilityOptions)"
proof -
  have n: "length (suggestMeetingTimes exampleUsers 30 monday monday noAvailabilityOptions) = 10"
    by code_simp
  have t: "\<lceil>(6/10) * (of_nat (length exampleUsers) :: rat)\<rceil> = 2"
    by code_simp
  have p: "list_all (\<lambda>s. availableParticipants s = [''u1'', ''u2''])
             (suggestMeetingTimes exampleUsers 30 monday monday noAvailabilityOptions)"
    by code_simp
  have "list_all (\<lambda>s. 2 \<le> int (length (availableParticipants s)))
          (suggestMeetingTimes exampleUsers 30 monday monday noAvailabilityOptions)"
    using suggestMeetingTimes_quorum [of exampleUsers 30 monday monday noAvailabilityOptions]
    unfolding t list_all_iff .
  with p have "list_all (\<lambda>s. 2 \<le> int (length (availableParticipants s))
                    \<and> availableParticipants s = [''u1'', ''u2''])
        (suggestMeetingTimes exampleUsers 30 monday monday noAvailabilityOptions)"
    by (simp add: list_all_iff)
  with n t show ?thesis by simp
qed


section \<open>Properties of the conflict detector\<close>

subsection \<open>The three checks\<close>

lemma spec_overlap_class_sym: "spec_overlap_class a b = spec_overlap_class b a"
  by (auto simp: spec_overlap_class_def overlapMinutesOf_def min.commute max.commute)

lemma checkOverlap_Some_iff:
  "(checkOverlap e1 e2 \<noteq> None)
   = (eventsOverlap e1 e2 \<or> (startTime e1 = startTime e2 \<and> endTime e1 = endTime e2))"
  by (auto simp: checkOverlap_def Let_def eventsOverlap_def isBefore_def isAfter_def
      isEqual_def split: prod.splits)

lemma checkOverlap_class:
  "checkOverlap e1 e2 = Some c \<Longrightarrow> classOf c = spec_overlap_class e1 e2"
  by (auto simp: checkOverlap_def Let_def classOf_def spec_overlap_class_def
      overlapMinutesOf_def durationMinutes_def isEqual_def mult.commute
      split: if_splits prod.splits)

lemma checkOverlap_events:
  "checkOverlap e1 e2 = Some c \<Longrightarrow> primaryEvent c = e1 \<and> conflictingEvent c = e2
     \<and> overlapDuration c = Some (overlapMinutesOf e1 e2)"
  by (auto simp: checkOverlap_def Let_def overlapMinutesOf_def split: if_splits prod.splits)

lemma checkOverlap_None_disjoint:
  assumes "wellFormed a" "wellFormed b" "endTime a \<le> startTime b"
  shows "checkOverlap a b = None"
  using assms
  by (simp add: checkOverlap_def Let_def wellFormed_def isBefore_def isAfter_def isEqual_def)

lemma checkBackToBack_events:
  "checkBackToBack e1 e2 t = Some c \<Longrightarrow> primaryEvent c = e1 \<and> conflictingEvent c = e2"
  by (auto simp: checkBackToBack_def Let_def split: if_splits)

lemma checkWorkPersonalSeparation_events:
  "checkWorkPersonalSeparation e1 e2 = Some c \<Longrightarrow>
     (primaryEvent c = e1 \<and> conflictingEvent c = e2)
     \<or> (primaryEvent c = e2 \<and> conflictingEvent c = e1)"
  by (auto simp: checkWorkPersonalSeparation_def Let_def split: if_splits)

lemma detect_overlap_first:
  "checkOverlap e1 e2 = Some c \<Longrightarrow> detectConflictBetweenEvents e1 e2 opts = Some c"
  by (simp add: detectConflictBetweenEvents_def)

lemma detect_events:
  "detectConflictBetweenEvents e1 e2 opts = Some c \<Longrightarrow>
     (primaryEvent c = e1 \<and> conflictingEvent c = e2)
     \<or> (primaryEvent c = e2 \<and> conflictingEvent c = e1)"
  by (auto simp: detectConflictBetweenEvents_def
      dest: checkOverlap_events checkBackToBack_events checkWorkPersonalSeparation_events
      split: option.splits if_splits)

lemma detect_pair:
  "detectConflictBetweenEvents e1 e2 opts = Some c
   \<Longrightarrow> conflictPair c = {event_id e1, event_id e2}"
  using detect_events [of e1 e2 opts c] by (auto simp: conflictPair_def)

lemma detect_overlapping_rule:
  assumes "detectConflictBetweenEvents e1 e2 opts = Some c"
    and "eventsOverlap (primaryEvent c) (conflictingEvent c)"
  shows "checkOverlap (primaryEvent c) (conflictingEvent c) = Some c"
proof -
  from detect_events [OF assms(1)] assms(2) have ov: "eventsOverlap e1 e2"
    by (auto simp: eventsOverlap_def)
  then obtain c' where c': "checkOverlap e1 e2 = Some c'"
    using checkOverlap_Some_iff [of e1 e2] by auto
  with assms(1) have "c = c'" by (simp add: detectConflictBetweenEvents_def)
  with c' checkOverlap_events [OF c'] show ?thesis by simp
qed

lemma detect_overlapping_class:
  assumes "detectConflictBetweenEvents e1 e2 opts = Some c"
    and "eventsOverlap (primaryEvent c) (conflictingEvent c)"
  shows "classOf c = spec_overlap_class (primaryEvent c) (conflictingEvent c)"
  using checkOverlap_class [OF detect_overlapping_rule [OF assms]] .

text \<open>
  For events that start and end on whole minutes, the rounded overlap that a conflict
  carries is the exact length of the intersection.
\<close>

lemma Math_round_of_int: "Math_round (of_int k) = k"
  by (simp add: Math_round_def) linarith

lemma whole_minutes_overlap:
  assumes "60000 dvd startTime a" "60000 dvd endTime a"
    "60000 dvd startTime b" "60000 dvd endTime b"
  shows "of_int (overlapMinutesOf a b)
         = msToMinutes (min (endTime a) (endTime b) - max (startTime a) (startTime b))"
proof -
  have "60000 dvd min (endTime a) (endTime b)" "60000 dvd max (startTime a) (startTime b)"
    using assms by (auto simp: min_def max_def)
  then have "60000 dvd (min (endTime a) (endTime b) - max (startTime a) (startTime b))"
    by (rule dvd_diff)
  then obtain k where k: "min (endTime a) (endTime b) - max (startTime a) (startTime b) = 60000 * k"
    by (auto elim: dvdE)
  have "msToMinutes (60000 * k) = of_int k"
    by (simp add: msToMinutes_def)
  then show ?thesis
    unfolding overlapMinutesOf_def k by (simp add: Math_round_of_int)
qed

subsection \<open>The iteration over pairs\<close>

lemma conflictsWithLater_origin:
  "c \<in> set (conflictsWithLater opts e1 es) \<Longrightarrow>
     \<exists>e2 \<in> set es. calendarId e1 \<noteq> calendarId e2
        \<and> detectConflictBetweenEvents e1 e2 opts = Some c"
  by (induction es) (auto split: if_splits option.splits)

lemma conflictsWithLater_covers:
  "e2 \<in> set es \<Longrightarrow> calendarId e1 \<noteq> calendarId e2
   \<Longrightarrow> detectConflictBetweenEvents e1 e2 opts = Some c
   \<Longrightarrow> c \<in> set (conflictsWithLater opts e1 es)"
  by (induction es) (auto split: option.splits)

lemma allPairConflicts_origin_sorted:
  assumes "sorted (map startTime xs)" and "c \<in> set (allPairConflicts opts xs)"
  shows "\<exists>e1 e2. e1 \<in> set xs \<and> e2 \<in> set xs \<and> startTime e1 \<le> startTime e2
           \<and> calendarId e1 \<noteq> calendarId e2
           \<and> detectConflictBetweenEvents e1 e2 opts = Some c"
  using assms
proof (induction xs)
  case Nil
  then show ?case by simp
next
  case (Cons x xs)
  from Cons.prems(2) consider
    (hd) "c \<in> set (conflictsWithLater opts x xs)" | (tl) "c \<in> set (allPairConflicts opts xs)"
    by auto
  then show ?case
  proof cases
    case hd
    from conflictsWithLater_origin [OF hd] obtain e2 where
      e2: "e2 \<in> set xs" "calendarId x \<noteq> calendarId e2"
        "detectConflictBetweenEvents x e2 opts = Some c" by blast
    from Cons.prems(1) e2(1) have "startTime x \<le> startTime e2" by simp
    with e2 show ?thesis by (intro exI [of _ x] exI [of _ e2]) simp
  next
    case tl
    from Cons.prems(1) have "sorted (map startTime xs)" by simp
    from Cons.IH [OF this tl] show ?thesis by auto
  qed
qed

lemma allPairConflicts_covers_sorted:
  assumes "sorted (map startTime xs)" and "a \<in> set xs" and "b \<in> set xs"
    and "startTime a < startTime b"
    and cal: "calendarId a \<noteq> calendarId b"
    and det: "detectConflictBetweenEvents a b opts = Some c"
  shows "c \<in> set (allPairConflicts opts xs)"
  using assms(1-4)
proof (induction xs)
  case Nil
  then show ?case by simp
next
  case (Cons x xs)
  show ?case
  proof (cases "a = x")
    case True
    with Cons.prems have "b \<in> set xs" by auto
    from conflictsWithLater_covers [OF this cal det] True show ?thesis by simp
  next
    case False
    with Cons.prems have a: "a \<in> set xs" by simp
    have "b \<noteq> x"
    proof
      assume "b = x"
      with Cons.prems(1) a have "startTime b \<le> startTime a" by simp
      with Cons.prems(4) show False by simp
    qed
    with Cons.prems have b: "b \<in> set xs" by simp
    from Cons.prems(1) have "sorted (map startTime xs)" by simp
    from Cons.IH [OF this a b Cons.prems(4)] show ?thesis by simp
  qed
qed

lemma allPairConflicts_covers_either:
  assumes "a \<in> set xs" and "b \<in> set xs" and "a \<noteq> b"
    and cal: "calendarId a \<noteq> calendarId b"
    and d1: "detectConflictBetweenEvents a b opts = Some c1"
    and d2: "detectConflictBetweenEvents b a opts = Some c2"
  shows "c1 \<in> set (allPairConflicts opts xs) \<or> c2 \<in> set (allPairConflicts opts xs)"
  using assms(1-3)
proof (induction xs)
  case Nil
  then show ?case by simp
next
  case (Cons x xs)
  show ?case
  proof (cases "a = x")
    case True
    with Cons.prems have "b \<in> set xs" by auto
    from conflictsWithLater_covers [OF this cal d1] True show ?thesis by simp
  next
    case False
    with Cons.prems have a: "a \<in> set xs" by simp
    show ?thesis
    proof (cases "b = x")
      case True
      from cal have "calendarId b \<noteq> calendarId a" by simp
      from conflictsWithLater_covers [OF a this d2] True show ?thesis by simp
    next
      case False
      with Cons.prems have "b \<in> set xs" by simp
      from Cons.IH [OF a this Cons.prems(3)] show ?thesis by auto
    qed
  qed
qed

subsection \<open>Deduplication\<close>

lemma deduplicate_loop_subset: "set (deduplicate_loop seen cs) \<subseteq> set cs"
  by (induction cs arbitrary: seen) auto

lemma deduplicate_loop_keys:
  "distinct (map conflictKey (deduplicate_loop seen cs))
   \<and> set (map conflictKey (deduplicate_loop seen cs)) \<inter> set seen = {}"
proof (induction cs arbitrary: seen)
  case Nil
  then show ?case by simp
next
  case (Cons c cs)
  show ?case
  proof (cases "conflictKey c \<in> set seen")
    case True
    then show ?thesis using Cons.IH [of seen] by simp
  next
    case False
    from Cons.IH [of "conflictKey c # seen"] False show ?thesis by auto
  qed
qed

lemma deduplicate_loop_keeps_key:
  "c \<in> set cs \<Longrightarrow> conflictKey c \<notin> set seen
   \<Longrightarrow> \<exists>c' \<in> set (deduplicate_loop seen cs). conflictKey c' = conflictKey c"
proof (induction cs arbitrary: seen)
  case Nil
  then show ?case by simp
next
  case (Cons x cs)
  show ?case
  proof (cases "conflictKey x \<in> set seen")
    case True
    with Cons.prems have "c \<in> set cs" by auto
    from Cons.IH [OF this Cons.prems(2)] True show ?thesis by simp
  next
    case False
    show ?thesis
    proof (cases "conflictKey x = conflictKey c")
      case True
      with False show ?thesis by simp
    next
      case neq: False
      with Cons.prems have c: "c \<in> set cs" by auto
      from neq Cons.prems(2) have "conflictKey c \<notin> set (conflictKey x # seen)" by simp
      from Cons.IH [OF c this] False show ?thesis by simp
    qed
  qed
qed

lemma sort_pair_commute: "sort [a, b :: string] = sort [b, a]"
  by auto

lemma conflictPair_key:
  "conflictPair c1 = conflictPair c2 \<Longrightarrow> conflictKey c1 = conflictKey c2"
  unfolding conflictPair_def conflictKey_def
  by (metis doubleton_eq_iff sort_pair_commute)

lemma distinct_map_coarser:
  assumes "distinct (map f xs)" and "\<And>x y. g x = g y \<Longrightarrow> f x = f y"
  shows "distinct (map g xs)"
  using assms(1)
proof (induction xs)
  case Nil
  then show ?case by simp
next
  case (Cons x xs)
  have "g x \<notin> g ` set xs"
  proof
    assume "g x \<in> g ` set xs"
    then obtain y where y: "y \<in> set xs" "g x = g y" by auto
    from assms(2) [OF y(2)] have "f x = f y" .
    with y(1) have "f x \<in> f ` set xs" by (rule_tac image_eqI)
    with Cons.prems show False by simp
  qed
  with Cons show ?case by simp
qed

lemma distinct_map_filter_one:
  assumes "distinct (map f xs)" and "x \<in> set xs"
  shows "filter (\<lambda>y. f y = f x) xs = [x]"
  using assms
proof (induction xs)
  case Nil
  then show ?case by simp
next
  case (Cons y ys)
  show ?case
  proof (cases "x = y")
    case True
    from Cons.prems(1) have "f y \<notin> f ` set ys" by simp
    then have "\<forall>z \<in> set ys. f z \<noteq> f y" by (metis image_eqI)
    then have "filter (\<lambda>z. f z = f y) ys = []" by (simp add: filter_empty_conv)
    with True show ?thesis by simp
  next
    case False
    with Cons.prems have x: "x \<in> set ys" by simp
    from Cons.prems(1) have "f y \<notin> f ` set ys" by simp
    with x have "f y \<noteq> f x" by (metis image_eqI)
    with Cons.IH x Cons.prems(1) show ?thesis by simp
  qed
qed

text \<open>
  The result never holds two conflicts for the same unordered pair of event ids.
\<close>

lemma detectConflicts_distinct_pairs:
  "distinct (map conflictPair (detectConflicts events options))"
proof -
  have "distinct (map conflictKey (detectConflicts events options))"
    using deduplicate_loop_keys by (simp add: detectConflicts_def Let_def deduplicateConflicts_def)
  then show ?thesis
    by (rule distinct_map_coarser) (rule conflictPair_key)
qed

text \<open>
  The key joins the two ids with \<open>_\<close>, so it tells two pairs apart only when the
  ids themselves are free of \<open>_\<close>.
\<close>

lemma underscore_split:
  assumes "CHR ''_'' \<notin> set x" and "CHR ''_'' \<notin> set x'"
    and eq: "x @ ''_'' @ y = x' @ ''_'' @ y'"
  shows "x = x' \<and> y = y'"
proof -
  have t: "\<And>u v. CHR ''_'' \<notin> set u \<Longrightarrow> takeWhile (\<lambda>c. c \<noteq> CHR ''_'') (u @ ''_'' @ v) = u"
  proof -
    fix u v :: string
    assume "CHR ''_'' \<notin> set u"
    then show "takeWhile (\<lambda>c. c \<noteq> CHR ''_'') (u @ ''_'' @ v) = u"
      by (induction u) auto
  qed
  from t [OF assms(1), of y] t [OF assms(2), of y'] eq have "x = x'" by simp
  with eq show ?thesis by simp
qed

lemma conflictKey_alt:
  "conflictKey c =
     (if event_id (primaryEvent c) \<le> event_id (conflictingEvent c)
      then event_id (primaryEvent c) @ ''_'' @ event_id (conflictingEvent c)
      else event_id (conflictingEvent c) @ ''_'' @ event_id (primaryEvent c))"
  by (simp add: conflictKey_def)

lemma conflictKey_inj:
  assumes "CHR ''_'' \<notin> set (event_id (primaryEvent c))"
    and "CHR ''_'' \<notin> set (event_id (conflictingEvent c))"
    and "CHR ''_'' \<notin> set (event_id (primaryEvent d))"
    and "CHR ''_'' \<notin> set (event_id (conflictingEvent d))"
    and "conflictKey c = conflictKey d"
  shows "conflictPair c = conflictPair d"
proof -
  let ?p = "event_id (primaryEvent c)" and ?q = "event_id (conflictingEvent c)"
  let ?r = "event_id (primaryEvent d)" and ?s = "event_id (conflictingEvent d)"
  from assms(5) consider
    "?p @ ''_'' @ ?q = ?r @ ''_'' @ ?s" | "?p @ ''_'' @ ?q = ?s @ ''_'' @ ?r"
    | "?q @ ''_'' @ ?p = ?r @ ''_'' @ ?s" | "?q @ ''_'' @ ?p = ?s @ ''_'' @ ?r"
    unfolding conflictKey_alt by (auto split: if_splits)
  then show ?thesis
  proof cases
    case 1
    from underscore_split [OF assms(1) assms(3) 1] show ?thesis by (simp add: conflictPair_def)
  next
    case 2
    from underscore_split [OF assms(1) assms(4) 2] show ?thesis
      by (auto simp: conflictPair_def)
  next
    case 3
    from underscore_split [OF assms(2) assms(3) 3] show ?thesis
      by (auto simp: conflictPair_def)
  next
    case 4
    from underscore_split [OF assms(2) assms(4) 4] show ?thesis
      by (auto simp: conflictPair_def)
  qed
qed

subsection \<open>The single-event variant\<close>

text \<open>
  Claim C5: \<open>detectConflictsForEvent\<close> is symmetric in its two events, also for the
  travel-time rule. The code does not keep this: \<open>checkBackToBack\<close> measures the gap
  from the end of its first event to the start of its second, and
  \<open>detectConflictsForEvent\<close> always passes the new event first, where
  \<open>detectConflicts\<close> sorts the events by start time. With a meeting from 09:00 to
  10:00 and one from 10:00 to 11:00 in another calendar, the first checked against the
  second is a travel-time conflict of medium severity, the second checked against the
  first is no conflict; \<open>detectConflicts\<close> reports the conflict in both orders.
\<close>

theorem detectConflictsForEvent_not_symmetric:
  "map classOf (detectConflictsForEvent standup [review] noConflictOptions) = [(travel_time, medium)]
   \<and> detectConflictsForEvent review [standup] noConflictOptions = []
   \<and> map classOf (detectConflicts [standup, review] noConflictOptions) = [(travel_time, medium)]
   \<and> map classOf (detectConflicts [review, standup] noConflictOptions) = [(travel_time, medium)]"
  by code_simp

subsection \<open>Event lists whose keys cannot collide\<close>

text \<open>
  When the event ids are distinct and free of \<open>_\<close>, the detector reports every pair
  of any list as the specification says. A conflict found by the pair iteration survives
  the deduplication, for the pair it was found for.
\<close>

lemma detectConflicts_reports:
  assumes ids: "distinct (map event_id events)"
    and us: "\<forall>e \<in> set events. CHR ''_'' \<notin> set (event_id e)"
    and a: "a \<in> set events" and b: "b \<in> set events"
    and c: "c \<in> set (allPairConflicts (mergeConflictOptions defaultConflictOptions options)
                     (sort_key startTime events))"
    and cp: "conflictPair c = {event_id a, event_id b}"
  shows "\<exists>c' \<in> set (detectConflicts events options). \<exists>e1 e2.
           ((e1 = a \<and> e2 = b) \<or> (e1 = b \<and> e2 = a)) \<and> startTime e1 \<le> startTime e2
           \<and> detectConflictBetweenEvents e1 e2
                (mergeConflictOptions defaultConflictOptions options) = Some c'"
proof -
  let ?opts = "mergeConflictOptions defaultConflictOptions options"
  let ?xs = "sort_key startTime events"
  let ?all = "allPairConflicts ?opts ?xs"
  have srt: "sorted (map startTime ?xs)" by (rule sorted_sort_key)
  have res: "detectConflicts events options = deduplicate_loop [] ?all"
    by (simp add: detectConflicts_def Let_def deduplicateConflicts_def)
  from deduplicate_loop_keeps_key [OF c, of "[]"] obtain c' where
    c'in: "c' \<in> set (deduplicate_loop [] ?all)" and key: "conflictKey c' = conflictKey c"
    by auto
  from c'in deduplicate_loop_subset have "c' \<in> set ?all" by blast
  from allPairConflicts_origin_sorted [OF srt this] obtain e1 e2 where
    e: "e1 \<in> set events" "e2 \<in> set events" "startTime e1 \<le> startTime e2"
       "detectConflictBetweenEvents e1 e2 ?opts = Some c'"
    by auto
  from detect_pair [OF e(4)] have cp': "conflictPair c' = {event_id e1, event_id e2}" .
  have u1: "CHR ''_'' \<notin> set (event_id (primaryEvent c'))"
    and u2: "CHR ''_'' \<notin> set (event_id (conflictingEvent c'))"
    using detect_events [OF e(4)] e(1,2) us by auto
  have "event_id (primaryEvent c) \<in> {event_id a, event_id b}"
    and "event_id (conflictingEvent c) \<in> {event_id a, event_id b}"
    using cp by (auto simp: conflictPair_def)
  then have u3: "CHR ''_'' \<notin> set (event_id (primaryEvent c))"
    and u4: "CHR ''_'' \<notin> set (event_id (conflictingEvent c))"
    using a b us by auto
  from conflictKey_inj [OF u1 u2 u3 u4 key] cp cp'
  have "{event_id e1, event_id e2} = {event_id a, event_id b}" by simp
  then have "(event_id e1 = event_id a \<and> event_id e2 = event_id b)
             \<or> (event_id e1 = event_id b \<and> event_id e2 = event_id a)"
    by (simp add: doubleton_eq_iff)
  moreover from ids have "inj_on event_id (set events)"
    by (simp add: distinct_map)
  ultimately have "(e1 = a \<and> e2 = b) \<or> (e1 = b \<and> e2 = a)"
    using a b e(1,2) by (auto dest: inj_onD)
  with e(3,4) c'in res show ?thesis by auto
qed

text \<open>
  Every overlapping pair from different calendars has a conflict in the result, of the
  class the specification gives, made by the overlap rule.
\<close>

lemma detectConflicts_classifies_every_pair:
  assumes ids: "distinct (map event_id events)"
    and us: "\<forall>e \<in> set events. CHR ''_'' \<notin> set (event_id e)"
    and a: "a \<in> set events" and b: "b \<in> set events"
    and cal: "calendarId a \<noteq> calendarId b"
    and ov: "eventsOverlap a b"
  shows "\<exists>c \<in> set (detectConflicts events options).
           conflictPair c = {event_id a, event_id b}
           \<and> classOf c = spec_overlap_class a b
           \<and> checkOverlap (primaryEvent c) (conflictingEvent c) = Some c"
proof -
  let ?opts = "mergeConflictOptions defaultConflictOptions options"
  let ?xs = "sort_key startTime events"
  from ov have ov': "eventsOverlap b a" by (auto simp: eventsOverlap_def)
  obtain c1 where c1: "checkOverlap a b = Some c1"
    using ov checkOverlap_Some_iff [of a b] by auto
  obtain c2 where c2: "checkOverlap b a = Some c2"
    using ov' checkOverlap_Some_iff [of b a] by auto
  note d1 = detect_overlap_first [OF c1, of ?opts] and d2 = detect_overlap_first [OF c2, of ?opts]
  from cal have ne: "a \<noteq> b" by auto
  from a b have "a \<in> set ?xs" "b \<in> set ?xs" by simp_all
  from allPairConflicts_covers_either [OF this ne cal d1 d2]
  obtain c0 where c0: "c0 \<in> set (allPairConflicts ?opts ?xs)"
    and cp0: "conflictPair c0 = {event_id a, event_id b}"
    using detect_pair [OF d1] detect_pair [OF d2] by (auto simp: insert_commute)
  from detectConflicts_reports [OF ids us a b c0 cp0] obtain c e1 e2 where
    c: "c \<in> set (detectConflicts events options)"
    and e: "(e1 = a \<and> e2 = b) \<or> (e1 = b \<and> e2 = a)"
    and det: "detectConflictBetweenEvents e1 e2 ?opts = Some c"
    by blast
  from e d1 d2 det have cc: "c = c1 \<or> c = c2" by auto
  have pe: "(primaryEvent c = a \<and> conflictingEvent c = b)
            \<or> (primaryEvent c = b \<and> conflictingEvent c = a)"
    using cc checkOverlap_events [OF c1] checkOverlap_events [OF c2] by auto
  then have ovc: "eventsOverlap (primaryEvent c) (conflictingEvent c)"
    using ov ov' by auto
  have "conflictPair c = {event_id a, event_id b}"
    using pe by (auto simp: conflictPair_def)
  moreover have "classOf c = spec_overlap_class a b"
    using detect_overlapping_class [OF det ovc] pe spec_overlap_class_sym [of a b] by auto
  moreover have "checkOverlap (primaryEvent c) (conflictingEvent c) = Some c"
    using detect_overlapping_rule [OF det ovc] .
  ultimately show ?thesis using c by blast
qed

text \<open>
  Every pair from different calendars with \<open>a\<close> ending no later than \<open>b\<close> starts
  and a gap below the travel time has a travel-time conflict in the result, of medium
  severity under 5 minutes and of low severity otherwise.
\<close>

lemma detectConflicts_travel_time_every_pair:
  assumes ids: "distinct (map event_id events)"
    and us: "\<forall>e \<in> set events. CHR ''_'' \<notin> set (event_id e)"
    and a: "a \<in> set events" and b: "b \<in> set events"
    and cal: "calendarId a \<noteq> calendarId b"
    and wa: "wellFormed a" and wb: "wellFormed b"
    and ab: "endTime a \<le> startTime b"
    and ibb: "includeBackToBack (mergeConflictOptions defaultConflictOptions options) = Some True"
    and tt: "travelTimeMinutes (mergeConflictOptions defaultConflictOptions options) = Some travel"
    and gap: "msToMinutes (startTime b - endTime a) < travel"
  shows "\<exists>c \<in> set (detectConflicts events options).
           conflictPair c = {event_id a, event_id b}
           \<and> primaryEvent c = a \<and> conflictingEvent c = b
           \<and> classOf c
               = (travel_time, if msToMinutes (startTime b - endTime a) < 5 then medium else low)"
proof -
  let ?opts = "mergeConflictOptions defaultConflictOptions options"
  let ?xs = "sort_key startTime events"
  let ?gap = "msToMinutes (startTime b - endTime a)"
  have gap0: "0 \<le> ?gap" using ab by (simp add: msToMinutes_def)
  with gap have travel: "travel \<noteq> 0" by auto
  have none: "checkOverlap a b = None"
    using wa wb ab by (rule checkOverlap_None_disjoint)
  obtain c0 where c0: "checkBackToBack a b travel = Some c0"
    and cls: "classOf c0 = (travel_time, if ?gap < 5 then medium else low)"
    using gap0 gap by (auto simp: checkBackToBack_def Let_def classOf_def)
  have det: "detectConflictBetweenEvents a b ?opts = Some c0"
    using none c0 travel ibb tt by (simp add: detectConflictBetweenEvents_def)
  have lt: "startTime a < startTime b" using wa ab by (simp add: wellFormed_def)
  have srt: "sorted (map startTime ?xs)" by (rule sorted_sort_key)
  from a b have "a \<in> set ?xs" "b \<in> set ?xs" by simp_all
  from allPairConflicts_covers_sorted [OF srt this lt cal det]
  have c0in: "c0 \<in> set (allPairConflicts ?opts ?xs)" .
  from detectConflicts_reports [OF ids us a b c0in detect_pair [OF det]] obtain c e1 e2 where
    c: "c \<in> set (detectConflicts events options)"
    and e: "(e1 = a \<and> e2 = b) \<or> (e1 = b \<and> e2 = a)"
    and le: "startTime e1 \<le> startTime e2"
    and det': "detectConflictBetweenEvents e1 e2 ?opts = Some c"
    by blast
  from e le lt have "e1 = a \<and> e2 = b" by auto
  with det det' have "c = c0" by simp
  with c cls detect_pair [OF det] checkBackToBack_events [OF c0] show ?thesis by auto
qed

text \<open>
  For every overlapping pair from different calendars the result holds exactly one
  conflict, the one of the overlap rule, whatever the other rules would say.
\<close>

lemma detectConflicts_exactly_one_for_pair:
  assumes ids: "distinct (map event_id events)"
    and us: "\<forall>e \<in> set events. CHR ''_'' \<notin> set (event_id e)"
    and a: "a \<in> set events" and b: "b \<in> set events"
    and cal: "calendarId a \<noteq> calendarId b"
    and ov: "eventsOverlap a b"
  shows "\<exists>c. filter (\<lambda>d. conflictPair d = {event_id a, event_id b})
                 (detectConflicts events options) = [c]
              \<and> checkOverlap (primaryEvent c) (conflictingEvent c) = Some c"
proof -
  from detectConflicts_classifies_every_pair [OF ids us a b cal ov, of options] obtain c where
    c: "c \<in> set (detectConflicts events options)"
    and cp: "conflictPair c = {event_id a, event_id b}"
    and co: "checkOverlap (primaryEvent c) (conflictingEvent c) = Some c"
    by blast
  from distinct_map_filter_one [OF detectConflicts_distinct_pairs c] cp co
  show ?thesis by auto
qed

subsection \<open>Event lists whose keys collide\<close>

text \<open>
  Claim C6: every pair of events from different calendars whose intervals overlap is
  classified by \<open>detectConflicts\<close>: a double booking of critical severity when start
  and end are both equal, else an overlap of high, medium or low severity. The code
  does not keep this for every list of events. \<open>deduplicateConflicts\<close> takes the two
  ids, sorted and joined by \<open>_\<close>, for a key that is unique to the pair; the pairs
  \<open>a_b\<close>, \<open>c\<close> and \<open>a\<close>, \<open>b_c\<close> have the same key \<open>a_b_c\<close>, and the conflict of
  the second pair is dropped as a duplicate of the first. Here the seminar and the
  lunch date, both 13:00 to 14:00 in different calendars, are a double booking; the
  pair iteration finds it, third of three conflicts, and the result holds the two others
  only.
\<close>

theorem detectConflicts_overlapping_pair_dropped:
  "map conflictSummary (detectConflicts collidingOverlapEvents noConflictOptions)
     = [(''a_b'', ''c'', overlap, low), (''z'', ''c'', overlap, low)]
   \<and> seminar \<in> set collidingOverlapEvents \<and> lunchDate \<in> set collidingOverlapEvents
   \<and> distinct (map event_id collidingOverlapEvents)
   \<and> calendarId seminar \<noteq> calendarId lunchDate
   \<and> eventsOverlap seminar lunchDate
   \<and> spec_overlap_class seminar lunchDate = (double_booking, critical)
   \<and> map conflictSummary
         (allPairConflicts (mergeConflictOptions defaultConflictOptions noConflictOptions)
            (sort_key startTime collidingOverlapEvents))
       = [(''a_b'', ''c'', overlap, low), (''z'', ''c'', overlap, low),
          (''a'', ''b_c'', double_booking, critical)]
   \<and> map conflictKey
         (allPairConflicts (mergeConflictOptions defaultConflictOptions noConflictOptions)
            (sort_key startTime collidingOverlapEvents))
       = [''a_b_c'', ''c_z'', ''a_b_c'']"
  by code_simp

text \<open>
  Claim C7: every pair of non-overlapping events from different calendars whose gap is
  at least 0 and below \<open>travelTimeMinutes\<close>, with \<open>includeBackToBack\<close> enabled, gets
  a conflict of type \<open>travel_time\<close>, of medium severity when the gap is under 5
  minutes. The code does not keep this for every list of events, by the same collision
  of keys in \<open>deduplicateConflicts\<close>. Here the retro ends at 12:00 when the pickup
  starts, a gap of 0 minutes with the default travel time of 15; the pair iteration finds the
  conflict, third of three, and the result holds the two others only.
\<close>

theorem detectConflicts_back_to_back_pair_dropped:
  "map conflictSummary (detectConflicts collidingBackToBackEvents noConflictOptions)
     = [(''a_b'', ''c'', travel_time, medium), (''c'', ''a'', travel_time, low)]
   \<and> retro \<in> set collidingBackToBackEvents \<and> pickup \<in> set collidingBackToBackEvents
   \<and> distinct (map event_id collidingBackToBackEvents)
   \<and> calendarId retro \<noteq> calendarId pickup
   \<and> wellFormed retro \<and> wellFormed pickup
   \<and> endTime retro \<le> startTime pickup
   \<and> msToMinutes (startTime pickup - endTime retro) = 0
   \<and> includeBackToBack (mergeConflictOptions defaultConflictOptions noConflictOptions) = Some True
   \<and> travelTimeMinutes (mergeConflictOptions defaultConflictOptions noConflictOptions) = Some 15
   \<and> map conflictSummary
         (allPairConflicts (mergeConflictOptions defaultConflictOptions noConflictOptions)
            (sort_key startTime collidingBackToBackEvents))
       = [(''a_b'', ''c'', travel_time, medium), (''c'', ''a'', travel_time, low),
          (''a'', ''b_c'', travel_time, medium)]
   \<and> map conflictKey
         (allPairConflicts (mergeConflictOptions defaultConflictOptions noConflictOptions)
            (sort_key startTime collidingBackToBackEvents))
       = [''a_b_c'', ''a_c'', ''a_b_c'']"
  by code_simp

text \<open>
  Claim C8: the result holds at most one conflict for each unordered pair of event ids,
  and when both the overlap rule and the work/personal rule would fire for a pair,
  exactly one conflict is produced for it, that of the overlap rule. The first half
  holds of the code. The second does not hold for every list of events, by the same
  collision of keys in \<open>deduplicateConflicts\<close>. Here the late shift overlaps the
  dinner and is a work event outside 09:00 to 17:00, so both rules would fire; the pair
  iteration finds the conflict of the overlap rule, third of three, and the result holds no
  conflict for the pair.
\<close>

theorem detectConflicts_two_rule_pair_dropped:
  "map conflictSummary (detectConflicts collidingSeparationEvents separationOptions)
     = [(''a_b'', ''c'', overlap, low), (''z'', ''c'', overlap, low)]
   \<and> lateShift \<in> set collidingSeparationEvents \<and> dinner \<in> set collidingSeparationEvents
   \<and> distinct (map event_id collidingSeparationEvents)
   \<and> calendarId lateShift \<noteq> calendarId dinner
   \<and> eventsOverlap lateShift dinner
   \<and> map_option conflictSummary (checkOverlap lateShift dinner)
       = Some (''a'', ''b_c'', overlap, low)
   \<and> map_option conflictSummary (checkWorkPersonalSeparation lateShift dinner)
       = Some (''a'', ''b_c'', overlap, medium)
   \<and> workPersonalSeparation (mergeConflictOptions defaultConflictOptions separationOptions)
       = Some True
   \<and> map conflictSummary
         (allPairConflicts (mergeConflictOptions defaultConflictOptions separationOptions)
            (sort_key startTime collidingSeparationEvents))
       = [(''a_b'', ''c'', overlap, low), (''z'', ''c'', overlap, low),
          (''a'', ''b_c'', overlap, low)]
   \<and> map conflictKey
         (allPairConflicts (mergeConflictOptions defaultConflictOptions separationOptions)
            (sort_key startTime collidingSeparationEvents))
       = [''a_b_c'', ''c_z'', ''a_b_c'']"
  by code_simp

end
